theory Spec2Isabelle
  imports Main "HOL-Library.Sublist"
begin

section \<open>Requests, identities and responses\<close>

text \<open>
  The backend is an Express application. A request carries the session's user (or none),
  the path parameters and the query parameters; a middleware either sends a response
  (\<open>res.status(..).json(..)\<close>) or calls \<open>next()\<close>. Logger calls do not influence
  the response and are left out of the model.
\<close>

datatype Role = USER | ADMIN

datatype ObjectId = ObjectId string

fun toString :: "ObjectId \<Rightarrow> string" where
  "toString (ObjectId h) = h"

record IUser =
  user_id :: ObjectId
  email :: string
  name :: string
  timeZone :: string
  roles :: "Role list"
  googleAccessToken :: "string option"
  googleRefreshToken :: "string option"

record Request =
  req_method :: string
  req_path :: string
  params :: "string \<rightharpoonup> string"
  query :: "string \<rightharpoonup> string"
  user :: "IUser option"
  isAuthenticated :: bool

text \<open>
  JavaScript truthiness of an optional string: \<open>undefined\<close> and the empty string are
  falsy, every other string is truthy.
\<close>

fun truthy :: "string option \<Rightarrow> bool" where
  "truthy None = False"
| "truthy (Some s) = (s \<noteq> [])"

datatype JsDate = InvalidDate | TimeValue int

datatype Json =
    JBool bool
  | JNum int
  | JStr string
  | JDate JsDate
  | JArr "Json list"
  | JObj "(string \<times> Json) list"

record Response =
  status :: nat
  json :: Json

datatype Outcome = Next | Send Response

section \<open>Authorization middleware\<close>

text \<open>\<open>src/middleware/requireUser.ts\<close>\<close>

definition requireUser :: "Request \<Rightarrow> Outcome" where
  "requireUser req =
     (if \<not> isAuthenticated req \<or> user req = None
      then Send \<lparr>status = 401,
                 json = JObj [(''success'', JBool False),
                              (''message'', JStr ''Authentication required'')]\<rparr>
      else Next)"

text \<open>\<open>src/middleware/requireRole.ts\<close>\<close>

definition requireRole :: "Role list \<Rightarrow> Request \<Rightarrow> Outcome" where
  "requireRole rs req =
     (case user req of
        None \<Rightarrow>
          Send \<lparr>status = 401,
                json = JObj [(''success'', JBool False),
                             (''message'', JStr ''Authentication required'')]\<rparr>
      | Some u \<Rightarrow>
          (let hasRequiredRole = list_ex (\<lambda>userRole. userRole \<in> set rs) (roles u) in
           if \<not> hasRequiredRole
           then Send \<lparr>status = 403,
                      json = JObj [(''success'', JBool False),
                                   (''message'', JStr ''Insufficient permissions'')]\<rparr>
           else Next))"

text \<open>\<open>src/middleware/requireOwnershipOrRole.ts\<close>\<close>

definition requireOwnershipOrRole :: "string \<Rightarrow> Role list \<Rightarrow> Request \<Rightarrow> Outcome" where
  "requireOwnershipOrRole paramName rs req =
     (case user req of
        None \<Rightarrow>
          Send \<lparr>status = 401,
                json = JObj [(''success'', JBool False),
                             (''message'', JStr ''Authentication required'')]\<rparr>
      | Some u \<Rightarrow>
          (let resourceUserId = params req paramName in
           if \<not> truthy resourceUserId
           then Send \<lparr>status = 400,
                      json = JObj [(''success'', JBool False),
                                   (''message'', JStr ''Invalid request'')]\<rparr>
           else
             (let isOwner = (Some (toString (user_id u)) = resourceUserId);
                  hasRequiredRole = list_ex (\<lambda>userRole. userRole \<in> set rs) (roles u)
              in if isOwner \<or> hasRequiredRole
                 then Next
                 else Send \<lparr>status = 403,
                            json = JObj [(''success'', JBool False),
                                         (''message'', JStr ''Access denied'')]\<rparr>)))"

text \<open>\<open>src/middleware/requireConnectedGoogle.ts\<close>\<close>

definition requireConnectedGoogle :: "Request \<Rightarrow> Outcome" where
  "requireConnectedGoogle req =
     (case user req of
        None \<Rightarrow>
          Send \<lparr>status = 401,
                json = JObj [(''success'', JBool False),
                             (''message'', JStr ''Authentication required'')]\<rparr>
      | Some u \<Rightarrow>
          if \<not> truthy (googleAccessToken u)
          then Send \<lparr>status = 403,
                     json = JObj [(''success'', JBool False),
                                  (''message'', JStr ''Google account connection required. Please connect your Google account to access Gmail features.''),
                                  (''code'', JStr ''GOOGLE_NOT_CONNECTED'')]\<rparr>
          else Next)"

text \<open>
  A route \<open>router.get(path, m1, m2, ..., handler)\<close> runs its handlers left to right:
  the next one runs only when the current one called \<open>next()\<close>. The result is the list
  of the handlers that ran, by name, and the response that was sent (none when every
  handler called \<open>next()\<close>).
\<close>

fun dispatch :: "(string \<times> (Request \<Rightarrow> Outcome)) list \<Rightarrow> Request \<Rightarrow> string list \<times> Response option" where
  "dispatch [] req = ([], None)"
| "dispatch ((nm, h) # rest) req =
     (case h req of
        Send r \<Rightarrow> ([nm], Some r)
      | Next \<Rightarrow> (case dispatch rest req of (visited, r) \<Rightarrow> (nm # visited, r)))"

section \<open>JavaScript strings\<close>

text \<open>
  Strings are lists of characters, a character being a code unit below 256 (ISO 8859-1,
  the first 256 code points of Unicode). The string methods the code calls are modelled
  on such strings: \<open>includes\<close>, \<open>toLowerCase\<close>, \<open>trim\<close>, \<open>split\<close>,
  \<open>join\<close> (the four with the prefix \<open>js_\<close> where the plain name is taken),
  \<open>padStart\<close> and the decimal rendering \<open>String(n)\<close> of an integer.

  \<open>toLowerCase\<close> maps the letters A to Z and the upper-case letters of the range
  0xC0 to 0xDE (all of it but the multiplication sign 0xD7) to the letter 0x20 above.
  The white space that \<open>trim\<close> and \<open>parseInt\<close> skip is, below 256, the
  characters 0x09 to 0x0D, the space and the no-break space 0xA0.
\<close>

fun js_includes :: "string \<Rightarrow> string \<Rightarrow> bool" where
  "js_includes [] sub = (sub = [])"
| "js_includes (c # cs) sub = (prefix sub (c # cs) \<or> js_includes cs sub)"

definition upperLetters :: string where
  "upperLetters =
     ''ABCDEFGHIJKLMNOPQRSTUVWXYZ''
     @ [CHR 0xC0, CHR 0xC1, CHR 0xC2, CHR 0xC3, CHR 0xC4, CHR 0xC5, CHR 0xC6, CHR 0xC7,
        CHR 0xC8, CHR 0xC9, CHR 0xCA, CHR 0xCB, CHR 0xCC, CHR 0xCD, CHR 0xCE, CHR 0xCF,
        CHR 0xD0, CHR 0xD1, CHR 0xD2, CHR 0xD3, CHR 0xD4, CHR 0xD5, CHR 0xD6, CHR 0xD8,
        CHR 0xD9, CHR 0xDA, CHR 0xDB, CHR 0xDC, CHR 0xDD, CHR 0xDE]"

definition lowerLetters :: string where
  "lowerLetters =
     ''abcdefghijklmnopqrstuvwxyz''
     @ [CHR 0xE0, CHR 0xE1, CHR 0xE2, CHR 0xE3, CHR 0xE4, CHR 0xE5, CHR 0xE6, CHR 0xE7,
        CHR 0xE8, CHR 0xE9, CHR 0xEA, CHR 0xEB, CHR 0xEC, CHR 0xED, CHR 0xEE, CHR 0xEF,
        CHR 0xF0, CHR 0xF1, CHR 0xF2, CHR 0xF3, CHR 0xF4, CHR 0xF5, CHR 0xF6, CHR 0xF8,
        CHR 0xF9, CHR 0xFA, CHR 0xFB, CHR 0xFC, CHR 0xFD, CHR 0xFE]"

definition lowerChar :: "char \<Rightarrow> char" where
  "lowerChar c =
     (case map_of (zip upperLetters lowerLetters) c of
        None \<Rightarrow> c
      | Some l \<Rightarrow> l)"

definition toLowerCase :: "string \<Rightarrow> string" where
  "toLowerCase s = map lowerChar s"

definition isWhiteSpace :: "char \<Rightarrow> bool" where
  "isWhiteSpace c = (c \<in> set [CHR 0x09, CHR 0x0A, CHR 0x0B, CHR 0x0C, CHR 0x0D, CHR '' '', CHR 0xA0])"

definition js_trim :: "string \<Rightarrow> string" where
  "js_trim s = rev (dropWhile isWhiteSpace (rev (dropWhile isWhiteSpace s)))"

text \<open>\<open>s.split(sep)\<close> for a one-character separator; \<open>"".split(",")\<close> is \<open>[""]\<close>.\<close>

fun js_split :: "char \<Rightarrow> string \<Rightarrow> string list" where
  "js_split sep [] = [[]]"
| "js_split sep (c # cs) =
     (if c = sep then [] # js_split sep cs
      else (case js_split sep cs of
              [] \<Rightarrow> [[c]]
            | w # ws \<Rightarrow> (c # w) # ws))"

fun js_join :: "string \<Rightarrow> string list \<Rightarrow> string" where
  "js_join sep [] = []"
| "js_join sep [x] = x"
| "js_join sep (x # y # ys) = x @ sep @ js_join sep (y # ys)"

definition padStart :: "nat \<Rightarrow> char \<Rightarrow> string \<Rightarrow> string" where
  "padStart n c s = replicate (n - length s) c @ s"

definition digitChar :: "nat \<Rightarrow> char" where
  "digitChar d = ''0123456789'' ! (d mod 10)"

function natString :: "nat \<Rightarrow> string" where
  "natString n = (if n < 10 then [digitChar n] else natString (n div 10) @ [digitChar (n mod 10)])"
  by pat_completeness auto
termination
  by (relation "measure id") auto

declare natString.simps [simp del]

text \<open>\<open>String(x)\<close> of a number that is an integer or NaN (\<open>None\<close>).\<close>

fun numberString :: "int option \<Rightarrow> string" where
  "numberString None = ''NaN''"
| "numberString (Some i) = (if i < 0 then CHR ''-'' # natString (nat (- i)) else natString (nat i))"

section \<open>Dates\<close>

text \<open>
  A JavaScript \<open>Date\<close> holds a time value, in milliseconds since the epoch, or NaN (an
  invalid date). \<open>new Date(t)\<close> for a number \<open>t\<close> keeps \<open>t\<close> when it lies within
  8.64e15 ms of the epoch and is invalid otherwise (ECMAScript TimeClip). The arithmetic
  of \<open>buildQuery\<close> is on integers: every product and difference that stays in the
  range of valid dates is exact in double precision, and one that leaves the exact range
  leaves the range of valid dates too.

  The calendar fields of a valid date in the host's time zone are a parameter of the
  model: \<open>cal t\<close> is the triple \<open>(getFullYear, getMonth, getDate)\<close> of the date with
  time value \<open>t\<close>. The getters of an invalid date return NaN.
\<close>

definition newDate :: "int \<Rightarrow> JsDate" where
  "newDate t = (if - 8640000000000000 \<le> t \<and> t \<le> 8640000000000000 then TimeValue t else InvalidDate)"

type_synonym Calendar = "int \<Rightarrow> int \<times> int \<times> int"

fun getFullYear :: "Calendar \<Rightarrow> JsDate \<Rightarrow> int option" where
  "getFullYear cal InvalidDate = None"
| "getFullYear cal (TimeValue t) = Some (fst (cal t))"

fun getMonth :: "Calendar \<Rightarrow> JsDate \<Rightarrow> int option" where
  "getMonth cal InvalidDate = None"
| "getMonth cal (TimeValue t) = Some (fst (snd (cal t)))"

fun getDate :: "Calendar \<Rightarrow> JsDate \<Rightarrow> int option" where
  "getDate cal InvalidDate = None"
| "getDate cal (TimeValue t) = Some (snd (snd (cal t)))"

section \<open>Gmail service\<close>

text \<open>\<open>src/services/gmail.service.ts\<close>\<close>

datatype TimeRange = hours | days | weeks | months

record EmailFilters =
  isRead :: "bool option"
  timeRange :: "TimeRange option"
  timeValue :: "int option"
  maxResults :: "int option"

record EmailMessage =
  m_id :: string
  m_threadId :: string
  m_subject :: string
  m_from :: string
  m_to :: "string list"
  m_date :: JsDate
  m_snippet :: string
  m_body :: string
  m_isRead :: bool
  m_labels :: "string list"

text \<open>
  \<open>buildQuery\<close>. The current time \<open>now\<close> (the time value of \<open>new Date()\<close>) and the
  host's calendar are parameters. A time range of the type \<open>TimeRange\<close> never reaches
  the \<open>default\<close> branch of the \<open>switch\<close>. \<open>filters.timeValue\<close> is truthy when it is
  set and not 0.
\<close>

definition buildQuery :: "Calendar \<Rightarrow> int \<Rightarrow> EmailFilters \<Rightarrow> string" where
  "buildQuery cal now filters =
     (let queryParts0 = [];
          queryParts1 =
            (case isRead filters of
               None \<Rightarrow> queryParts0
             | Some r \<Rightarrow> queryParts0 @ [if r then ''is:read'' else ''is:unread'']);
          queryParts2 =
            (case (timeRange filters, timeValue filters) of
               (Some tr, Some tv) \<Rightarrow>
                 if tv = 0 then queryParts1
                 else
                   (let afterDate =
                          (case tr of
                             hours \<Rightarrow> newDate (now - tv * 60 * 60 * 1000)
                           | days \<Rightarrow> newDate (now - tv * 24 * 60 * 60 * 1000)
                           | weeks \<Rightarrow> newDate (now - tv * 7 * 24 * 60 * 60 * 1000)
                           | months \<Rightarrow> newDate (now - tv * 30 * 24 * 60 * 60 * 1000));
                        year = getFullYear cal afterDate;
                        month = padStart 2 CHR ''0''
                                  (numberString (map_option (\<lambda>m. m + 1) (getMonth cal afterDate)));
                        day = padStart 2 CHR ''0'' (numberString (getDate cal afterDate))
                    in queryParts1 @ [''after:'' @ numberString year @ ''/'' @ month @ ''/'' @ day])
             | _ \<Rightarrow> queryParts1)
      in js_join '' '' queryParts2)"

text \<open>
  \<open>parseHeaders\<close>. A header is a name/value pair. \<open>new Date(dateStr)\<close> parses a date
  string; the parser is the host's and is a parameter (\<open>parseDate\<close>), as is the current
  time that \<open>new Date()\<close> reads.
\<close>

record Header =
  h_name :: string
  h_value :: string

record ParsedHeaders =
  p_subject :: string
  p_from :: string
  p_to :: "string list"
  p_date :: JsDate

definition getHeader :: "Header list \<Rightarrow> string \<Rightarrow> string" where
  "getHeader headers nm =
     (case find (\<lambda>h. toLowerCase (h_name h) = toLowerCase nm) headers of
        None \<Rightarrow> []
      | Some header \<Rightarrow> h_value header)"

definition parseHeaders :: "(string \<Rightarrow> JsDate) \<Rightarrow> int \<Rightarrow> Header list \<Rightarrow> ParsedHeaders" where
  "parseHeaders parseDate now headers =
     (let subject = getHeader headers ''Subject'';
          sender = getHeader headers ''From'';
          recipients = map js_trim (js_split CHR '','' (getHeader headers ''To''));
          dateStr = getHeader headers ''Date'';
          date = (if dateStr \<noteq> [] then parseDate dateStr else TimeValue now)
      in \<lparr>p_subject = subject, p_from = sender, p_to = recipients, p_date = date\<rparr>)"

text \<open>
  \<open>extractBody\<close>. A node of the payload tree has an optional MIME type, optional inline
  data (\<open>body?.data\<close>: none when \<open>body\<close> or \<open>data\<close> is missing) and an optional list
  of child nodes. Decoding (\<open>Buffer.from(data, 'base64').toString('utf-8')\<close>) is the
  parameter \<open>decode\<close>. \<open>scanParts\<close> is the \<open>for\<close> loop over \<open>payload.parts\<close>, with
  the loop's variable \<open>body\<close> as its accumulator.
\<close>

datatype MessagePart =
  MessagePart (mimeType: "string option") (bodyData: "string option") (parts: "MessagePart list option")

fun extractBody :: "(string \<Rightarrow> string) \<Rightarrow> MessagePart \<Rightarrow> string"
  and scanParts :: "(string \<Rightarrow> string) \<Rightarrow> string \<Rightarrow> MessagePart list \<Rightarrow> string" where
  "extractBody decode (MessagePart mt bd ps) =
     (if truthy bd then decode (the bd)
      else (case ps of
              None \<Rightarrow> []
            | Some children \<Rightarrow> scanParts decode [] children))"
| "scanParts decode body [] = body"
| "scanParts decode body (MessagePart mt bd ps # rest) =
     (if mt = Some ''text/plain'' \<and> truthy bd then decode (the bd)
      else if mt = Some ''text/html'' \<and> truthy bd \<and> body = [] then scanParts decode (decode (the bd)) rest
      else if ps \<noteq> None then
        (let body' = extractBody decode (MessagePart mt bd ps)
         in if body' \<noteq> [] then body' else scanParts decode body' rest)
      else scanParts decode body rest)"

text \<open>
  The remote mailbox. \<open>google.gmail({version: 'v1', auth})\<close> is a client of the Gmail
  API bound to the user's tokens; a call of it returns its data or throws an error, of
  which the model keeps the message (\<open>Inl\<close>). The client is a parameter of the service.
  A fetched message is taken to have its \<open>id\<close>, its \<open>threadId\<close> and its payload.
  \<open>messages_get_settles\<close> is the instant at which the call of \<open>messages.get\<close> for a
  message settles; the calls that \<open>getEmails\<close> issues together settle in any order.
\<close>

record RawMessage =
  raw_id :: string
  raw_threadId :: string
  raw_labelIds :: "string list option"
  raw_snippet :: "string option"
  raw_headers :: "Header list option"
  raw_payload :: MessagePart

record GmailApi =
  messages_list :: "string option \<Rightarrow> int \<Rightarrow> string + string list option"
  messages_get :: "string \<Rightarrow> string + RawMessage"
  messages_get_settles :: "string \<Rightarrow> nat"

record Host =
  host_decode :: "string \<Rightarrow> string"
  host_parseDate :: "string \<Rightarrow> JsDate"
  host_calendar :: Calendar
  host_now :: int
  google_gmail :: "string option \<times> string option \<Rightarrow> GmailApi"

definition createOAuth2Client :: "IUser \<Rightarrow> string option \<times> string option" where
  "createOAuth2Client u = (googleAccessToken u, googleRefreshToken u)"

text \<open>The normalisation of one fetched message, shared by both service functions.\<close>

definition toEmailMessage :: "Host \<Rightarrow> RawMessage \<Rightarrow> EmailMessage" where
  "toEmailMessage host msg =
     (let headers = (case raw_headers msg of None \<Rightarrow> [] | Some hs \<Rightarrow> hs);
          ph = parseHeaders (host_parseDate host) (host_now host) headers;
          body = extractBody (host_decode host) (raw_payload msg);
          labelIds = (case raw_labelIds msg of None \<Rightarrow> [] | Some ls \<Rightarrow> ls)
      in \<lparr>m_id = raw_id msg, m_threadId = raw_threadId msg,
          m_subject = p_subject ph, m_from = p_from ph, m_to = p_to ph, m_date = p_date ph,
          m_snippet = (case raw_snippet msg of None \<Rightarrow> [] | Some sn \<Rightarrow> sn),
          m_body = body,
          m_isRead = (''UNREAD'' \<notin> set labelIds),
          m_labels = labelIds\<rparr>)"

text \<open>
  \<open>Promise.all\<close> over calls that settle at given instants: the results in list order
  when every call succeeds; otherwise the rejection of the call that is rejected first
  (of two rejected at the same instant, the one that comes first in the list).
\<close>

fun firstRejection :: "(nat \<times> (string + 'a)) list \<Rightarrow> (nat \<times> string) option" where
  "firstRejection [] = None"
| "firstRejection ((t, Inr x) # rest) = firstRejection rest"
| "firstRejection ((t, Inl e) # rest) =
     (case firstRejection rest of
        None \<Rightarrow> Some (t, e)
      | Some (t', e') \<Rightarrow> if t' < t then Some (t', e') else Some (t, e))"

fun fulfilled :: "(nat \<times> (string + 'a)) list \<Rightarrow> 'a list" where
  "fulfilled [] = []"
| "fulfilled ((t, Inr x) # rest) = x # fulfilled rest"
| "fulfilled ((t, Inl e) # rest) = fulfilled rest"

definition promiseAll :: "(nat \<times> (string + 'a)) list \<Rightarrow> string + 'a list" where
  "promiseAll settled =
     (case firstRejection settled of
        Some (t, e) \<Rightarrow> Inl e
      | None \<Rightarrow> Inr (fulfilled settled))"

definition gmailService_getEmails :: "Host \<Rightarrow> IUser \<Rightarrow> EmailFilters \<Rightarrow> string + EmailMessage list" where
  "gmailService_getEmails host u filters =
     (let gmail = google_gmail host (createOAuth2Client u);
          q = buildQuery (host_calendar host) (host_now host) filters;
          maxRes = (case maxResults filters of
                      None \<Rightarrow> 50
                    | Some n \<Rightarrow> if n = 0 then 50 else n)
      in case messages_list gmail (if q = [] then None else Some q) maxRes of
           Inl e \<Rightarrow> Inl (''Failed to fetch emails: '' @ e)
         | Inr listed \<Rightarrow>
             (let messages = (case listed of None \<Rightarrow> [] | Some ms \<Rightarrow> ms)
              in if messages = [] then Inr []
                 else
                   (case promiseAll
                           (map (\<lambda>mid. (messages_get_settles gmail mid,
                                         case messages_get gmail mid of
                                           Inl e \<Rightarrow> Inl e
                                         | Inr msg \<Rightarrow> Inr (toEmailMessage host msg)))
                                messages) of
                      Inl e \<Rightarrow> Inl (''Failed to fetch emails: '' @ e)
                    | Inr emails \<Rightarrow> Inr emails)))"

definition gmailService_getEmailById :: "Host \<Rightarrow> IUser \<Rightarrow> string \<Rightarrow> string + EmailMessage" where
  "gmailService_getEmailById host u emailId =
     (let gmail = google_gmail host (createOAuth2Client u)
      in case messages_get gmail emailId of
           Inl e \<Rightarrow> Inl (''Failed to fetch email: '' @ e)
         | Inr msg \<Rightarrow> Inr (toEmailMessage host msg))"

section \<open>Email controller\<close>

text \<open>
  \<open>src/controllers/email.controller.ts\<close>. \<open>parseInt(s, 10)\<close> skips leading white
  space, reads an optional sign and the longest run of decimal digits, and is NaN
  (\<open>None\<close>) when there is no digit. The model keeps the integer that the digits
  denote; JavaScript rounds one beyond 2^53 to a double, which changes neither its sign
  nor the checks made on it.
\<close>

definition digitValue :: "char \<Rightarrow> int option" where
  "digitValue c = map_of (zip ''0123456789'' [0, 1, 2, 3, 4, 5, 6, 7, 8, 9]) c"

definition parseInt :: "string \<Rightarrow> int option" where
  "parseInt s =
     (let t = dropWhile isWhiteSpace s;
          negative = (case t of [] \<Rightarrow> False | c # cs \<Rightarrow> c = CHR ''-'');
          r = (case t of [] \<Rightarrow> t | c # cs \<Rightarrow> if c = CHR ''-'' \<or> c = CHR ''+'' then cs else t);
          ds = takeWhile (\<lambda>c. digitValue c \<noteq> None) r
      in if ds = [] then None
         else Some ((if negative then - 1 else 1) * foldl (\<lambda>a c. 10 * a + the (digitValue c)) 0 ds))"

definition timeRangeOf :: "string \<Rightarrow> TimeRange option" where
  "timeRangeOf s =
     (if s = ''hours'' then Some hours
      else if s = ''days'' then Some days
      else if s = ''weeks'' then Some weeks
      else if s = ''months'' then Some months
      else None)"

fun numberTruthy :: "int option \<Rightarrow> bool" where
  "numberTruthy None = False"
| "numberTruthy (Some n) = (n \<noteq> 0)"

definition badRequest :: "string \<Rightarrow> Response" where
  "badRequest msg = \<lparr>status = 400, json = JObj [(''error'', JStr msg)]\<rparr>"

text \<open>
  The block of \<open>getEmails\<close> that builds \<open>filters\<close> from \<open>req.query\<close> (the filter
  normalizer): either the response of the first check that fails, or the filters.
\<close>

definition getEmails_filters :: "(string \<rightharpoonup> string) \<Rightarrow> Response + EmailFilters" where
  "getEmails_filters q =
     (let filters0 = \<lparr>isRead = None, timeRange = None, timeValue = None, maxResults = None\<rparr>;
          filters1 = (case q ''isRead'' of
                        None \<Rightarrow> filters0
                      | Some v \<Rightarrow> filters0\<lparr>isRead := Some (v = ''true'')\<rparr>)
      in case (if truthy (q ''timeRange'')
               then (case timeRangeOf (the (q ''timeRange'')) of
                       Some tr \<Rightarrow> Inr (filters1\<lparr>timeRange := Some tr\<rparr>)
                     | None \<Rightarrow> Inl (badRequest ''Invalid timeRange. Must be one of: hours, days, weeks, months''))
               else Inr filters1) of
           Inl r \<Rightarrow> Inl r
         | Inr filters2 \<Rightarrow>
        (case (if truthy (q ''timeValue'')
               then (case parseInt (the (q ''timeValue'')) of
                       None \<Rightarrow> Inl (badRequest ''timeValue must be a positive number'')
                     | Some n \<Rightarrow>
                         if n \<le> 0 then Inl (badRequest ''timeValue must be a positive number'')
                         else Inr (filters2\<lparr>timeValue := Some n\<rparr>))
               else Inr filters2) of
           Inl r \<Rightarrow> Inl r
         | Inr filters3 \<Rightarrow>
        (case (if truthy (q ''maxResults'')
               then (case parseInt (the (q ''maxResults'')) of
                       None \<Rightarrow> Inl (badRequest ''maxResults must be between 1 and 500'')
                     | Some n \<Rightarrow>
                         if n \<le> 0 \<or> n > 500 then Inl (badRequest ''maxResults must be between 1 and 500'')
                         else Inr (filters3\<lparr>maxResults := Some n\<rparr>))
               else Inr filters3) of
           Inl r \<Rightarrow> Inl r
         | Inr filters4 \<Rightarrow>
             if timeRange filters4 \<noteq> None \<and> \<not> numberTruthy (timeValue filters4)
             then Inl (badRequest ''timeValue is required when timeRange is specified'')
             else if numberTruthy (timeValue filters4) \<and> timeRange filters4 = None
             then Inl (badRequest ''timeRange is required when timeValue is specified'')
             else Inr filters4)))"

definition timeRangeName :: "TimeRange \<Rightarrow> string" where
  "timeRangeName tr = (case tr of hours \<Rightarrow> ''hours'' | days \<Rightarrow> ''days'' | weeks \<Rightarrow> ''weeks'' | months \<Rightarrow> ''months'')"

definition filtersJson :: "EmailFilters \<Rightarrow> Json" where
  "filtersJson f =
     JObj ((case isRead f of None \<Rightarrow> [] | Some b \<Rightarrow> [(''isRead'', JBool b)])
         @ (case timeRange f of None \<Rightarrow> [] | Some tr \<Rightarrow> [(''timeRange'', JStr (timeRangeName tr))])
         @ (case timeValue f of None \<Rightarrow> [] | Some n \<Rightarrow> [(''timeValue'', JNum n)])
         @ (case maxResults f of None \<Rightarrow> [] | Some n \<Rightarrow> [(''maxResults'', JNum n)]))"

definition emailJson :: "EmailMessage \<Rightarrow> Json" where
  "emailJson e =
     JObj [(''id'', JStr (m_id e)), (''threadId'', JStr (m_threadId e)),
           (''subject'', JStr (m_subject e)), (''from'', JStr (m_from e)),
           (''to'', JArr (map JStr (m_to e))), (''date'', JDate (m_date e)),
           (''snippet'', JStr (m_snippet e)), (''body'', JStr (m_body e)),
           (''isRead'', JBool (m_isRead e)), (''labels'', JArr (map JStr (m_labels e)))]"

definition authExpired :: Response where
  "authExpired =
     \<lparr>status = 401,
      json = JObj [(''error'', JStr ''Google authentication expired. Please re-authenticate.''),
                   (''code'', JStr ''AUTH_EXPIRED'')]\<rparr>"

text \<open>
  The controllers take the service function they call as an argument; \<open>res.json\<close>
  without \<open>res.status\<close> answers 200. The \<open>catch\<close> block classifies the thrown
  error by its message.
\<close>

definition emailController_getEmails ::
    "(IUser \<Rightarrow> EmailFilters \<Rightarrow> string + EmailMessage list) \<Rightarrow> Request \<Rightarrow> Response" where
  "emailController_getEmails service req =
     (case user req of
        None \<Rightarrow> \<lparr>status = 401, json = JObj [(''error'', JStr ''User not authenticated'')]\<rparr>
      | Some u \<Rightarrow>
          (case getEmails_filters (query req) of
             Inl r \<Rightarrow> r
           | Inr filters \<Rightarrow>
               (case service u filters of
                  Inr emails \<Rightarrow>
                    \<lparr>status = 200,
                     json = JObj [(''success'', JBool True),
                                  (''count'', JNum (int (length emails))),
                                  (''filters'', filtersJson filters),
                                  (''emails'', JArr (map emailJson emails))]\<rparr>
                | Inl message \<Rightarrow>
                    if js_includes message ''invalid_grant'' \<or> js_includes message ''Token''
                    then authExpired
                    else \<lparr>status = 500,
                          json = JObj [(''error'', JStr ''Failed to fetch emails''),
                                       (''message'', JStr message)]\<rparr>)))"

definition emailController_getEmailById ::
    "(IUser \<Rightarrow> string \<Rightarrow> string + EmailMessage) \<Rightarrow> Request \<Rightarrow> Response" where
  "emailController_getEmailById service req =
     (case user req of
        None \<Rightarrow> \<lparr>status = 401, json = JObj [(''error'', JStr ''User not authenticated'')]\<rparr>
      | Some u \<Rightarrow>
          (let emailId = params req ''id''
           in if \<not> truthy emailId then badRequest ''Email ID is required''
              else
                (case service u (the emailId) of
                   Inr e \<Rightarrow>
                     \<lparr>status = 200,
                      json = JObj [(''success'', JBool True), (''email'', emailJson e)]\<rparr>
                 | Inl message \<Rightarrow>
                     if js_includes message ''invalid_grant'' \<or> js_includes message ''Token''
                     then authExpired
                     else if js_includes message ''Not Found'' \<or> js_includes message ''404''
                     then \<lparr>status = 404,
                           json = JObj [(''error'', JStr ''Email not found''),
                                        (''message'', JStr message)]\<rparr>
                     else \<lparr>status = 500,
                           json = JObj [(''error'', JStr ''Failed to fetch email''),
                                        (''message'', JStr message)]\<rparr>)))"

section \<open>Email routes\<close>

text \<open>
  \<open>src/routes/email.routes.ts\<close>: both routes run the rate limiter, the
  authentication gate and the Google-connection gate before the controller, which
  calls the Gmail service. The rate limiter is built by the library
  \<open>express-rate-limit\<close> and is a parameter.
\<close>

definition getEmails_endpoint :: "Host \<Rightarrow> Request \<Rightarrow> Response" where
  "getEmails_endpoint host req = emailController_getEmails (gmailService_getEmails host) req"

definition getEmailById_endpoint :: "Host \<Rightarrow> Request \<Rightarrow> Response" where
  "getEmailById_endpoint host req = emailController_getEmailById (gmailService_getEmailById host) req"

definition emailRoutes_getEmails ::
    "(Request \<Rightarrow> Outcome) \<Rightarrow> Host \<Rightarrow> (string \<times> (Request \<Rightarrow> Outcome)) list" where
  "emailRoutes_getEmails apiRateLimiter host =
     [(''apiRateLimiter'', apiRateLimiter),
      (''requireUser'', requireUser),
      (''requireConnectedGoogle'', requireConnectedGoogle),
      (''emailController.getEmails'', \<lambda>req. Send (getEmails_endpoint host req))]"

definition emailRoutes_getEmailById ::
    "(Request \<Rightarrow> Outcome) \<Rightarrow> Host \<Rightarrow> (string \<times> (Request \<Rightarrow> Outcome)) list" where
  "emailRoutes_getEmailById apiRateLimiter host =
     [(''apiRateLimiter'', apiRateLimiter),
      (''requireUser'', requireUser),
      (''requireConnectedGoogle'', requireConnectedGoogle),
      (''emailController.getEmailById'', \<lambda>req. Send (getEmailById_endpoint host req))]"

section \<open>User model\<close>

text \<open>
  \<open>src/models/user.model.ts\<close>: the \<open>toJSON\<close> transform of the user schema. \<open>ret\<close>
  is the plain object of the document, a map from property names to values; the type of
  the values is left open, with \<open>toStr\<close> for the method \<open>toString()\<close> of a value and
  \<open>str\<close> for a string as a value. Reading \<open>ret._id.toString\<close> when \<open>ret\<close> has no
  \<open>_id\<close> throws a TypeError.
\<close>

datatype JsError = TypeError

definition toJSON_transform ::
    "('v \<Rightarrow> string) \<Rightarrow> (string \<Rightarrow> 'v) \<Rightarrow> (string \<rightharpoonup> 'v) \<Rightarrow> JsError + (string \<rightharpoonup> 'v)" where
  "toJSON_transform toStr str ret =
     (case ret ''_id'' of
        None \<Rightarrow> Inl TypeError
      | Some i \<Rightarrow>
          (let ret1 = ret(''id'' \<mapsto> str (toStr i));
               ret2 = ret1(''_id'' := None);
               ret3 = ret2(''__v'' := None);
               ret4 = ret3(''googleAccessToken'' := None);
               ret5 = ret4(''googleRefreshToken'' := None)
           in Inr ret5))"

section \<open>Notions used to state the properties\<close>

text \<open>
  The \<open>maxResults\<close> parameter passes its own check of \<open>getEmails\<close>: it is missing
  or empty, or \<open>parseInt\<close> reads from it an integer between 1 and 500.
\<close>

definition maxResultsAccepted :: "(string \<rightharpoonup> string) \<Rightarrow> bool" where
  "maxResultsAccepted q =
     (if truthy (q ''maxResults'')
      then (case parseInt (the (q ''maxResults'')) of None \<Rightarrow> False | Some n \<Rightarrow> 0 < n \<and> n \<le> 500)
      else True)"

text \<open>
  The query as the specification describes it: the duration of a unit in seconds, the
  cutoff instant, and the list of the clauses that apply. \<open>afterClause\<close> renders the
  calendar date of an instant that is a valid date: the year in decimal, the month and
  the day padded to two digits. \<open>isDigits\<close> holds of a string of decimal digits.
\<close>

definition unitSeconds :: "TimeRange \<Rightarrow> int" where
  "unitSeconds tr =
     (case tr of
        hours \<Rightarrow> 3600
      | days \<Rightarrow> 24 * 3600
      | weeks \<Rightarrow> 7 * (24 * 3600)
      | months \<Rightarrow> 30 * (24 * 3600))"

definition cutoffInstant :: "int \<Rightarrow> TimeRange \<Rightarrow> int \<Rightarrow> int" where
  "cutoffInstant now tr tv = now - tv * (unitSeconds tr * 1000)"

definition afterClause :: "Calendar \<Rightarrow> int \<Rightarrow> string" where
  "afterClause cal t =
     (if - 8640000000000000 \<le> t \<and> t \<le> 8640000000000000
      then (case cal t of
              (y, m, d) \<Rightarrow>
                ''after:'' @ numberString (Some y) @ ''/''
                  @ padStart 2 CHR ''0'' (numberString (Some (m + 1))) @ ''/''
                  @ padStart 2 CHR ''0'' (numberString (Some d)))
      else ''after:NaN/NaN/NaN'')"

definition isDigits :: "string \<Rightarrow> bool" where
  "isDigits s = list_all (\<lambda>c. c \<in> set ''0123456789'') s"

definition queryClauses :: "Calendar \<Rightarrow> int \<Rightarrow> EmailFilters \<Rightarrow> string list" where
  "queryClauses cal now f =
     (case isRead f of
        None \<Rightarrow> []
      | Some r \<Rightarrow> [if r then ''is:read'' else ''is:unread''])
     @ (case (timeRange f, timeValue f) of
          (Some tr, Some tv) \<Rightarrow> [afterClause cal (cutoffInstant now tr tv)]
        | _ \<Rightarrow> [])"

text \<open>
  Body extraction. A child is inert when it does not end the scan of its siblings: it is
  no \<open>text/plain\<close> part with data, and it has no nested part list or its extraction
  is empty. A nested part is a child with a part list that is neither a \<open>text/plain\<close>
  nor a \<open>text/html\<close> part with data: the loop descends into it. \<open>plainReached decode
  n d\<close> says that the tree \<open>n\<close> holds a \<open>text/plain\<close> part with data \<open>d\<close>, at any
  depth, on a path along which every node is without inline data, every node entered is
  a nested part, every earlier sibling is inert, and the text found below is not empty.
\<close>

definition inertChild :: "(string \<Rightarrow> string) \<Rightarrow> MessagePart \<Rightarrow> bool" where
  "inertChild decode c =
     (\<not> (mimeType c = Some ''text/plain'' \<and> truthy (bodyData c))
      \<and> (parts c = None \<or> extractBody decode c = []))"

definition nestedPart :: "MessagePart \<Rightarrow> bool" where
  "nestedPart c =
     (parts c \<noteq> None
      \<and> \<not> (mimeType c = Some ''text/plain'' \<and> truthy (bodyData c))
      \<and> \<not> (mimeType c = Some ''text/html'' \<and> truthy (bodyData c)))"

inductive plainReached :: "(string \<Rightarrow> string) \<Rightarrow> MessagePart \<Rightarrow> string \<Rightarrow> bool"
  for decode :: "string \<Rightarrow> string" where
  direct:
    "\<not> truthy bd \<Longrightarrow> d \<noteq> [] \<Longrightarrow> list_all (inertChild decode) pre \<Longrightarrow>
     plainReached decode
       (MessagePart mt bd (Some (pre @ MessagePart (Some ''text/plain'') (Some d) ps # rest))) d"
| nested:
    "\<not> truthy bd \<Longrightarrow> list_all (inertChild decode) pre \<Longrightarrow> nestedPart c \<Longrightarrow>
     plainReached decode c d \<Longrightarrow> decode d \<noteq> [] \<Longrightarrow>
     plainReached decode (MessagePart mt bd (Some (pre @ c # rest))) d"

code_pred plainReached .

text \<open>The outcome of the call of \<open>messages.list\<close> that \<open>getEmails\<close> makes.\<close>

definition getEmails_listed :: "Host \<Rightarrow> IUser \<Rightarrow> EmailFilters \<Rightarrow> string + string list option" where
  "getEmails_listed host u filters =
     (let q = buildQuery (host_calendar host) (host_now host) filters
      in messages_list (google_gmail host (createOAuth2Client u))
           (if q = [] then None else Some q)
           (case maxResults filters of
              None \<Rightarrow> 50
            | Some n \<Rightarrow> if n = 0 then 50 else n))"

text \<open>No header of the list has the given name, compared without regard to case.\<close>

definition headerAbsent :: "Header list \<Rightarrow> string \<Rightarrow> bool" where
  "headerAbsent headers nm = (\<forall>h \<in> set headers. toLowerCase (h_name h) \<noteq> toLowerCase nm)"

section \<open>Test doubles\<close>

text \<open>
  Concrete values on which the model is run, after the mocks of the repository's tests:
  a user with Google tokens, a Gmail client whose every call is rejected with a given
  message, a host and a request of that user.
\<close>

text \<open>
  The calendar of a host whose time zone is UTC: the proleptic Gregorian date of the day
  \<open>t div 86400000\<close>, with the month counted from 0 as \<open>getMonth\<close> does.
\<close>

definition civilFromDays :: "int \<Rightarrow> int \<times> int \<times> int" where
  "civilFromDays z =
     (let z1 = z + 719468;
          era = z1 div 146097;
          doe = z1 mod 146097;
          yoe = (doe - doe div 1460 + doe div 36524 - doe div 146096) div 365;
          doy = doe - (365 * yoe + yoe div 4 - yoe div 100);
          mp = (5 * doy + 2) div 153;
          d = doy - (153 * mp + 2) div 5 + 1;
          m = (if mp < 10 then mp + 3 else mp - 9);
          y = yoe + era * 400 + (if m \<le> 2 then 1 else 0)
      in (y, m - 1, d))"

definition utcCalendar :: Calendar where
  "utcCalendar t = civilFromDays (t div 86400000)"

definition mockUser :: IUser where
  "mockUser =
     \<lparr>user_id = ObjectId ''507f1f77bcf86cd799439011'', email = ''test@example.com'',
      name = ''Test User'', timeZone = ''America/New_York'', roles = [USER],
      googleAccessToken = Some ''mock_token'', googleRefreshToken = Some ''mock_refresh''\<rparr>"

definition rejectingGmail :: "string \<Rightarrow> GmailApi" where
  "rejectingGmail msg =
     \<lparr>messages_list = (\<lambda>q n. Inl msg), messages_get = (\<lambda>i. Inl msg),
      messages_get_settles = (\<lambda>i. 0)\<rparr>"

text \<open>
  A Gmail client that lists the given messages and rejects every \<open>messages.get\<close> with
  the given message.
\<close>

definition listingGmail :: "string list \<Rightarrow> string \<Rightarrow> GmailApi" where
  "listingGmail ids msg =
     \<lparr>messages_list = (\<lambda>q n. Inr (Some ids)), messages_get = (\<lambda>i. Inl msg),
      messages_get_settles = (\<lambda>i. 0)\<rparr>"

definition mockHost :: "GmailApi \<Rightarrow> Host" where
  "mockHost api =
     \<lparr>host_decode = (\<lambda>d. d), host_parseDate = (\<lambda>s. InvalidDate),
      host_calendar = utcCalendar, host_now = 1700000000000, google_gmail = (\<lambda>credentials. api)\<rparr>"

definition mockRequest :: "(string \<rightharpoonup> string) \<Rightarrow> (string \<rightharpoonup> string) \<Rightarrow> Request" where
  "mockRequest ps q =
     \<lparr>req_method = ''GET'', req_path = ''/api/emails'', params = ps, query = q,
      user = Some mockUser, isAuthenticated = True\<rparr>"

text \<open>
  The plain object of a user document, with values of the kinds that a user document
  holds and their \<open>toString()\<close>.
\<close>

datatype DocValue = IdValue ObjectId | StringValue string | NumberValue int | RolesValue "Role list"

fun docToString :: "DocValue \<Rightarrow> string" where
  "docToString (IdValue i) = toString i"
| "docToString (StringValue s) = s"
| "docToString (NumberValue n) = numberString (Some n)"
| "docToString (RolesValue rs) = js_join '','' (map (\<lambda>r. case r of USER \<Rightarrow> ''USER'' | ADMIN \<Rightarrow> ''ADMIN'') rs)"

definition mockDocument :: "string \<Rightarrow> string \<Rightarrow> (string \<rightharpoonup> DocValue)" where
  "mockDocument accessToken refreshToken =
     [''_id'' \<mapsto> IdValue (ObjectId ''507f1f77bcf86cd799439011''),
      ''__v'' \<mapsto> NumberValue 0,
      ''email'' \<mapsto> StringValue ''test@example.com'',
      ''name'' \<mapsto> StringValue ''Test User'',
      ''timeZone'' \<mapsto> StringValue ''America/New_York'',
      ''roles'' \<mapsto> RolesValue [USER],
      ''googleAccessToken'' \<mapsto> StringValue accessToken,
      ''googleRefreshToken'' \<mapsto> StringValue refreshToken]"

section \<open>Properties of the authorization chain\<close>

lemma list_ex_member_iff: "list_ex (\<lambda>x. x \<in> set ys) xs \<longleftrightarrow> set xs \<inter> set ys \<noteq> {}"
  by (auto simp: list_ex_iff)

text \<open>
  C1. For a request with an authenticated Identity reaching the ownership-or-role gate
  configured with parameter name \<open>P\<close> and bypass roles \<open>R\<close>: when the path parameters hold
  no value for \<open>P\<close> (the parameter is missing, or is the empty string, which the guard
  \<open>!resourceUserId\<close> treats alike) the gate sends 400 \<open>{success:false, message:"Invalid
  request"}\<close>; otherwise it calls the next handler when the Identity's id, as a string,
  equals the parameter value or the Identity's roles intersect \<open>R\<close>; otherwise it sends
  403 \<open>{success:false, message:"Access denied"}\<close>. So an owner passes whatever the
  roles are, and a holder of a bypass role passes whatever the ownership is.
\<close>

theorem requireOwnershipOrRole_decision:
  assumes "user req = Some u"
  shows "requireOwnershipOrRole P R req =
           (if params req P = None \<or> params req P = Some []
            then Send \<lparr>status = 400,
                       json = JObj [(''success'', JBool False),
                                    (''message'', JStr ''Invalid request'')]\<rparr>
            else if params req P = Some (toString (user_id u)) \<or> set (roles u) \<inter> set R \<noteq> {}
            then Next
            else Send \<lparr>status = 403,
                       json = JObj [(''success'', JBool False),
                                    (''message'', JStr ''Access denied'')]\<rparr>)"
proof (cases "params req P")
  case None
  with assms show ?thesis
    by (simp add: requireOwnershipOrRole_def)
next
  case (Some v)
  with assms show ?thesis
    by (auto simp: requireOwnershipOrRole_def Let_def list_ex_member_iff)
qed

theorem requireOwnershipOrRole_decision_witness:
  "requireOwnershipOrRole ''userId'' [ADMIN]
     \<lparr>req_method = ''GET'', req_path = ''/api/users/507f1f77bcf86cd799439011'',
      params = [''userId'' \<mapsto> ''507f1f77bcf86cd799439011''], query = Map.empty,
      user = Some \<lparr>user_id = ObjectId ''507f1f77bcf86cd799439011'', email = ''user@example.com'',
                   name = ''User'', timeZone = ''America/New_York'', roles = [USER],
                   googleAccessToken = None, googleRefreshToken = None\<rparr>,
      isAuthenticated = True\<rparr> = Next
   \<and> requireOwnershipOrRole ''userId'' [ADMIN]
     \<lparr>req_method = ''GET'', req_path = ''/api/users/507f1f77bcf86cd799439012'',
      params = [''userId'' \<mapsto> ''507f1f77bcf86cd799439012''], query = Map.empty,
      user = Some \<lparr>user_id = ObjectId ''507f1f77bcf86cd799439011'', email = ''user@example.com'',
                   name = ''User'', timeZone = ''America/New_York'', roles = [USER],
                   googleAccessToken = None, googleRefreshToken = None\<rparr>,
      isAuthenticated = True\<rparr>
     = Send \<lparr>status = 403,
             json = JObj [(''success'', JBool False), (''message'', JStr ''Access denied'')]\<rparr>
   \<and> requireOwnershipOrRole ''userId'' [ADMIN]
     \<lparr>req_method = ''GET'', req_path = ''/api/users/507f1f77bcf86cd799439012'',
      params = [''userId'' \<mapsto> ''507f1f77bcf86cd799439012''], query = Map.empty,
      user = Some \<lparr>user_id = ObjectId ''507f1f77bcf86cd799439011'', email = ''admin@example.com'',
                   name = ''Admin'', timeZone = ''America/New_York'', roles = [USER, ADMIN],
                   googleAccessToken = None, googleRefreshToken = None\<rparr>,
      isAuthenticated = True\<rparr> = Next
   \<and> requireOwnershipOrRole ''userId'' [ADMIN]
     \<lparr>req_method = ''GET'', req_path = ''/api/users'',
      params = Map.empty, query = Map.empty,
      user = Some \<lparr>user_id = ObjectId ''507f1f77bcf86cd799439011'', email = ''admin@example.com'',
                   name = ''Admin'', timeZone = ''America/New_York'', roles = [USER, ADMIN],
                   googleAccessToken = None, googleRefreshToken = None\<rparr>,
      isAuthenticated = True\<rparr>
     = Send \<lparr>status = 400,
             json = JObj [(''success'', JBool False), (''message'', JStr ''Invalid request'')]\<rparr>"
  by (simp add: requireOwnershipOrRole_decision)

text \<open>
  C2. In a route that runs the authentication gate before further gates and the handler,
  a request with no Identity attached is answered by the authentication gate with 401
  \<open>{success:false, message:"Authentication required"}\<close>, and the authentication gate is
  the last handler of the chain that runs: whatever gates and handler follow it, none
  of them is evaluated. So it is in the two email routes, once the rate limiter has let
  the request pass: neither the Google-connection gate nor the controller runs.
\<close>

theorem requireUser_short_circuits:
  assumes "user req = None"
  shows "dispatch ((''requireUser'', requireUser) # later) req =
           ([''requireUser''],
            Some \<lparr>status = 401,
                  json = JObj [(''success'', JBool False),
                               (''message'', JStr ''Authentication required'')]\<rparr>)
       \<and> (apiRateLimiter req = Next \<longrightarrow>
            dispatch (emailRoutes_getEmails apiRateLimiter host) req =
              ([''apiRateLimiter'', ''requireUser''],
               Some \<lparr>status = 401,
                     json = JObj [(''success'', JBool False),
                                  (''message'', JStr ''Authentication required'')]\<rparr>)
          \<and> dispatch (emailRoutes_getEmailById apiRateLimiter host) req =
              ([''apiRateLimiter'', ''requireUser''],
               Some \<lparr>status = 401,
                     json = JObj [(''success'', JBool False),
                                  (''message'', JStr ''Authentication required'')]\<rparr>))"
  using assms
  by (simp add: requireUser_def emailRoutes_getEmails_def emailRoutes_getEmailById_def)

theorem requireUser_short_circuits_witness:
  "dispatch [(''requireUser'', requireUser),
             (''requireRole'', requireRole [ADMIN]),
             (''requireOwnershipOrRole'', requireOwnershipOrRole ''userId'' [ADMIN]),
             (''requireConnectedGoogle'', requireConnectedGoogle)]
     \<lparr>req_method = ''GET'', req_path = ''/api/emails'', params = Map.empty, query = Map.empty,
      user = None, isAuthenticated = False\<rparr>
   = ([''requireUser''],
      Some \<lparr>status = 401,
            json = JObj [(''success'', JBool False),
                         (''message'', JStr ''Authentication required'')]\<rparr>)
   \<and> dispatch (emailRoutes_getEmails (\<lambda>req. Next) (mockHost (rejectingGmail ''unreachable'')))
     \<lparr>req_method = ''GET'', req_path = ''/api/emails'', params = Map.empty, query = Map.empty,
      user = None, isAuthenticated = False\<rparr>
   = ([''apiRateLimiter'', ''requireUser''],
      Some \<lparr>status = 401,
            json = JObj [(''success'', JBool False),
                         (''message'', JStr ''Authentication required'')]\<rparr>)"
  using requireUser_short_circuits
          [of "\<lparr>req_method = ''GET'', req_path = ''/api/emails'', params = Map.empty,
                query = Map.empty, user = None, isAuthenticated = False\<rparr>"
              "[(''requireRole'', requireRole [ADMIN]),
                (''requireOwnershipOrRole'', requireOwnershipOrRole ''userId'' [ADMIN]),
                (''requireConnectedGoogle'', requireConnectedGoogle)]"
              "\<lambda>req. Next" "mockHost (rejectingGmail ''unreachable'')"]
  by simp

section \<open>Error classification of the email endpoints\<close>

lemma js_includes_sublist: "js_includes s sub \<longleftrightarrow> sublist sub s"
  by (induction s) (auto simp: sublist_Cons_right)

lemma js_includes_append_left: "js_includes e sub \<Longrightarrow> js_includes (p @ e) sub"
  by (auto simp: js_includes_sublist sublist_def) (metis append_assoc)

lemma controller_getEmails_error:
  assumes "user req = Some u" and "getEmails_filters (query req) = Inr f" and "service u f = Inl e"
  shows "emailController_getEmails service req =
           (if js_includes e ''invalid_grant'' \<or> js_includes e ''Token'' then authExpired
            else \<lparr>status = 500,
                  json = JObj [(''error'', JStr ''Failed to fetch emails''), (''message'', JStr e)]\<rparr>)"
  using assms by (simp add: emailController_getEmails_def)

lemma controller_getEmailById_error:
  assumes "user req = Some u" and "params req ''id'' = Some i" and "i \<noteq> []" and "service u i = Inl e"
  shows "emailController_getEmailById service req =
           (if js_includes e ''invalid_grant'' \<or> js_includes e ''Token'' then authExpired
            else if js_includes e ''Not Found'' \<or> js_includes e ''404''
            then \<lparr>status = 404,
                  json = JObj [(''error'', JStr ''Email not found''), (''message'', JStr e)]\<rparr>
            else \<lparr>status = 500,
                  json = JObj [(''error'', JStr ''Failed to fetch email''), (''message'', JStr e)]\<rparr>)"
  using assms by (simp add: emailController_getEmailById_def Let_def)

lemma service_getEmailById_error:
  assumes "messages_get (google_gmail host (createOAuth2Client u)) i = Inl e"
  shows "gmailService_getEmailById host u i = Inl (''Failed to fetch email: '' @ e)"
  using assms by (simp add: gmailService_getEmailById_def Let_def)


lemma firstRejection_mem:
  "firstRejection xs = Some (t, e) \<Longrightarrow> (t, Inl e) \<in> set xs"
  by (induction xs arbitrary: t e rule: firstRejection.induct)
     (auto split: option.splits if_splits)

lemma firstRejection_Some:
  "(t, Inl e) \<in> set xs \<Longrightarrow> \<exists>t' e'. firstRejection xs = Some (t', e')"
  by (induction xs rule: firstRejection.induct) (auto split: option.splits)

lemma firstRejection_least:
  "firstRejection xs = Some (t, e) \<Longrightarrow> (t', Inl e') \<in> set xs \<Longrightarrow> t \<le> t'"
proof (induction xs arbitrary: t e rule: firstRejection.induct)
  case 1
  then show ?case by simp
next
  case (2 t0 x rest)
  then show ?case by simp
next
  case (3 t0 e0 rest)
  show ?case
  proof (cases "firstRejection rest")
    case None
    with "3.prems"(1) have t: "t = t0"
      by simp
    from None firstRejection_Some [of t' e' rest] have "(t', Inl e') \<notin> set rest"
      by auto
    with "3.prems"(2) t show ?thesis
      by simp
  next
    case (Some r)
    obtain t1 e1 where r: "r = (t1, e1)"
      by (cases r)
    from "3.IH" [of t1 e1] Some r have ih: "(t', Inl e') \<in> set rest \<Longrightarrow> t1 \<le> t'"
      by simp
    show ?thesis
    proof (cases "t1 < t0")
      case True
      with "3.prems"(1) Some r have "t = t1"
        by simp
      with True ih "3.prems"(2) show ?thesis
        by auto
    next
      case False
      with "3.prems"(1) Some r have "t = t0"
        by simp
      with False ih "3.prems"(2) show ?thesis
        by auto
    qed
  qed
qed

lemma promiseAll_first:
  assumes "(t, Inl e) \<in> set xs"
    and "\<forall>t' e'. (t', Inl e') \<in> set xs \<longrightarrow> e' = e \<or> t < t'"
  shows "promiseAll xs = Inl e"
proof -
  from firstRejection_Some [OF assms(1)]
  obtain t0 e0 where r: "firstRejection xs = Some (t0, e0)"
    by blast
  from firstRejection_mem [OF r] have m: "(t0, Inl e0) \<in> set xs" .
  from firstRejection_least [OF r assms(1)] have "t0 \<le> t" .
  with assms(2) m have "e0 = e"
    by fastforce
  with r show ?thesis
    by (simp add: promiseAll_def)
qed

lemma promiseAll_rejected:
  "promiseAll xs = Inl e \<Longrightarrow> \<exists>t. (t, Inl e) \<in> set xs"
  by (auto simp: promiseAll_def split: option.splits dest: firstRejection_mem)

lemma service_getEmails_unfold:
  "gmailService_getEmails host u f =
     (case getEmails_listed host u f of
        Inl e \<Rightarrow> Inl (''Failed to fetch emails: '' @ e)
      | Inr listed \<Rightarrow>
          (let messages = (case listed of None \<Rightarrow> [] | Some ms \<Rightarrow> ms)
           in if messages = [] then Inr []
              else
                (case promiseAll
                        (map (\<lambda>mid. (messages_get_settles (google_gmail host (createOAuth2Client u)) mid,
                                      case messages_get (google_gmail host (createOAuth2Client u)) mid of
                                        Inl e \<Rightarrow> Inl e
                                      | Inr msg \<Rightarrow> Inr (toEmailMessage host msg)))
                             messages) of
                   Inl e \<Rightarrow> Inl (''Failed to fetch emails: '' @ e)
                 | Inr emails \<Rightarrow> Inr emails)))"
  by (simp add: gmailService_getEmails_def getEmails_listed_def Let_def)

lemma service_getEmails_list_error:
  assumes "getEmails_listed host u f = Inl e"
  shows "gmailService_getEmails host u f = Inl (''Failed to fetch emails: '' @ e)"
  using assms by (simp add: service_getEmails_unfold)

lemma service_getEmails_get_error:
  assumes "getEmails_listed host u f = Inr (Some ids)"
    and "i \<in> set ids"
    and "messages_get (google_gmail host (createOAuth2Client u)) i = Inl e"
    and "\<forall>j \<in> set ids. \<forall>e'. messages_get (google_gmail host (createOAuth2Client u)) j = Inl e' \<longrightarrow>
           e' = e \<or> messages_get_settles (google_gmail host (createOAuth2Client u)) i
                     < messages_get_settles (google_gmail host (createOAuth2Client u)) j"
  shows "gmailService_getEmails host u f = Inl (''Failed to fetch emails: '' @ e)"
proof -
  let ?G = "google_gmail host (createOAuth2Client u)"
  let ?xs = "map (\<lambda>mid. (messages_get_settles ?G mid,
                       case messages_get ?G mid of
                         Inl e \<Rightarrow> Inl e
                       | Inr msg \<Rightarrow> Inr (toEmailMessage host msg))) ids"
  from assms(2,3) have "(messages_get_settles ?G i, Inl e) \<in> set ?xs"
    by (force simp: image_iff)
  moreover have "\<forall>t' e'. (t', Inl e') \<in> set ?xs \<longrightarrow> e' = e \<or> messages_get_settles ?G i < t'"
    using assms(4) by (auto split: sum.splits)
  ultimately have "promiseAll ?xs = Inl e"
    by (rule promiseAll_first)
  moreover from assms(2) have "ids \<noteq> []"
    by auto
  ultimately show ?thesis
    using assms(1) by (simp add: service_getEmails_unfold)
qed

lemma service_getEmails_error_origin:
  assumes "gmailService_getEmails host u f = Inl m"
  shows "\<exists>e. m = ''Failed to fetch emails: '' @ e
           \<and> (getEmails_listed host u f = Inl e
               \<or> (\<exists>i. messages_get (google_gmail host (createOAuth2Client u)) i = Inl e))"
proof (cases "getEmails_listed host u f")
  case (Inl e)
  with assms show ?thesis
    by (auto simp: service_getEmails_unfold)
next
  case (Inr listed)
  let ?G = "google_gmail host (createOAuth2Client u)"
  let ?ids = "case listed of None \<Rightarrow> [] | Some ms \<Rightarrow> ms"
  let ?xs = "map (\<lambda>mid. (messages_get_settles ?G mid,
                       case messages_get ?G mid of
                         Inl e \<Rightarrow> Inl e
                       | Inr msg \<Rightarrow> Inr (toEmailMessage host msg))) ?ids"
  from assms Inr obtain e where e: "promiseAll ?xs = Inl e" and m: "m = ''Failed to fetch emails: '' @ e"
    by (auto simp: service_getEmails_unfold Let_def split: if_splits sum.splits)
  from promiseAll_rejected [OF e] obtain t where "(t, Inl e) \<in> set ?xs"
    by blast
  then obtain i where "messages_get ?G i = Inl e"
    by (auto split: sum.splits)
  with m show ?thesis
    by blast
qed

text \<open>
  C3. When the mailbox fetch called by a controller (\<open>getEmails\<close> or \<open>getEmailById\<close>)
  throws an error, the endpoint answers 401 with the body \<open>{error: "Google authentication
  expired. Please re-authenticate.", code: "AUTH_EXPIRED"}\<close> exactly when the message of
  the error contains \<open>invalid_grant\<close> or \<open>Token\<close>; an error without such a substring
  is never answered so. The same holds end to end for the message of the error that the
  remote call throws, in \<open>messages.list\<close> or in \<open>messages.get\<close>, for one message or,
  within \<open>getEmails\<close>, for the call that is rejected first: the service puts \<open>Failed
  to fetch emails: \<close> (or \<open>Failed to fetch email: \<close>) in front of it, which neither
  hides such a substring nor creates one. And an endpoint answers so only when a remote
  call has thrown an error with such a message. In particular a remote error
  \<open>invalid_grant\<close> is answered with that 401.
\<close>

theorem auth_expired_classification:
  assumes "user req = Some u"
  shows "(\<forall>f e. getEmails_filters (query req) = Inr f \<longrightarrow> service1 u f = Inl e \<longrightarrow>
            (emailController_getEmails service1 req = authExpired)
              = (js_includes e ''invalid_grant'' \<or> js_includes e ''Token''))
       \<and> (\<forall>i e. params req ''id'' = Some i \<longrightarrow> i \<noteq> [] \<longrightarrow> service2 u i = Inl e \<longrightarrow>
            (emailController_getEmailById service2 req = authExpired)
              = (js_includes e ''invalid_grant'' \<or> js_includes e ''Token''))
       \<and> (\<forall>f e. getEmails_filters (query req) = Inr f \<longrightarrow>
            getEmails_listed host u f = Inl e \<longrightarrow>
            (getEmails_endpoint host req = authExpired)
              = (js_includes e ''invalid_grant'' \<or> js_includes e ''Token''))
       \<and> (\<forall>i e. params req ''id'' = Some i \<longrightarrow> i \<noteq> [] \<longrightarrow>
            messages_get (google_gmail host (createOAuth2Client u)) i = Inl e \<longrightarrow>
            (getEmailById_endpoint host req = authExpired)
              = (js_includes e ''invalid_grant'' \<or> js_includes e ''Token''))
       \<and> (\<forall>f ids i e. getEmails_filters (query req) = Inr f \<longrightarrow>
            getEmails_listed host u f = Inr (Some ids) \<longrightarrow> i \<in> set ids \<longrightarrow>
            messages_get (google_gmail host (createOAuth2Client u)) i = Inl e \<longrightarrow>
            (\<forall>j \<in> set ids. \<forall>e'. messages_get (google_gmail host (createOAuth2Client u)) j = Inl e' \<longrightarrow>
               e' = e \<or> messages_get_settles (google_gmail host (createOAuth2Client u)) i
                         < messages_get_settles (google_gmail host (createOAuth2Client u)) j) \<longrightarrow>
            (getEmails_endpoint host req = authExpired)
              = (js_includes e ''invalid_grant'' \<or> js_includes e ''Token''))
       \<and> (\<forall>f. getEmails_filters (query req) = Inr f \<longrightarrow>
            getEmails_endpoint host req = authExpired \<longrightarrow>
            (\<exists>e. (js_includes e ''invalid_grant'' \<or> js_includes e ''Token'')
                 \<and> (getEmails_listed host u f = Inl e
                     \<or> (\<exists>i. messages_get (google_gmail host (createOAuth2Client u)) i = Inl e))))
       \<and> (\<forall>i. params req ''id'' = Some i \<longrightarrow> i \<noteq> [] \<longrightarrow>
            getEmailById_endpoint host req = authExpired \<longrightarrow>
            (\<exists>e. (js_includes e ''invalid_grant'' \<or> js_includes e ''Token'')
                 \<and> messages_get (google_gmail host (createOAuth2Client u)) i = Inl e))"
proof -
  let ?G = "google_gmail host (createOAuth2Client u)"
  have c1: "(emailController_getEmails service1 req = authExpired)
      = (js_includes e ''invalid_grant'' \<or> js_includes e ''Token'')"
    if "getEmails_filters (query req) = Inr f" "service1 u f = Inl e" for f e
    using assms that by (simp add: controller_getEmails_error authExpired_def)
  have c2: "(emailController_getEmailById service2 req = authExpired)
      = (js_includes e ''invalid_grant'' \<or> js_includes e ''Token'')"
    if "params req ''id'' = Some i" "i \<noteq> []" "service2 u i = Inl e" for i e
    using assms that by (simp add: controller_getEmailById_error authExpired_def)
  have wrapped: "(getEmails_endpoint host req = authExpired)
      = (js_includes e ''invalid_grant'' \<or> js_includes e ''Token'')"
    if "getEmails_filters (query req) = Inr f"
      and "gmailService_getEmails host u f = Inl (''Failed to fetch emails: '' @ e)" for f e
    using assms that
    by (simp add: getEmails_endpoint_def controller_getEmails_error authExpired_def)
  have c3: "(getEmails_endpoint host req = authExpired)
      = (js_includes e ''invalid_grant'' \<or> js_includes e ''Token'')"
    if "getEmails_filters (query req) = Inr f" "getEmails_listed host u f = Inl e" for f e
    using that(1) service_getEmails_list_error [OF that(2)] by (rule wrapped)
  have c4: "(getEmailById_endpoint host req = authExpired)
      = (js_includes e ''invalid_grant'' \<or> js_includes e ''Token'')"
    if "params req ''id'' = Some i" "i \<noteq> []" "messages_get ?G i = Inl e" for i e
  proof -
    have "gmailService_getEmailById host u i = Inl (''Failed to fetch email: '' @ e)"
      using that(3) by (rule service_getEmailById_error)
    with assms that(1,2) show ?thesis
      by (simp add: getEmailById_endpoint_def controller_getEmailById_error authExpired_def)
  qed
  have c5: "(getEmails_endpoint host req = authExpired)
      = (js_includes e ''invalid_grant'' \<or> js_includes e ''Token'')"
    if "getEmails_filters (query req) = Inr f" "getEmails_listed host u f = Inr (Some ids)"
      "i \<in> set ids" "messages_get ?G i = Inl e"
      "\<forall>j \<in> set ids. \<forall>e'. messages_get ?G j = Inl e' \<longrightarrow>
         e' = e \<or> messages_get_settles ?G i < messages_get_settles ?G j" for f ids i e
    using that(1) service_getEmails_get_error [OF that(2-5)] by (rule wrapped)
  have c6: "\<exists>e. (js_includes e ''invalid_grant'' \<or> js_includes e ''Token'')
                 \<and> (getEmails_listed host u f = Inl e \<or> (\<exists>i. messages_get ?G i = Inl e))"
    if f: "getEmails_filters (query req) = Inr f" and a: "getEmails_endpoint host req = authExpired" for f
  proof (cases "gmailService_getEmails host u f")
    case (Inr emails)
    with assms f a show ?thesis
      by (simp add: getEmails_endpoint_def emailController_getEmails_def authExpired_def)
  next
    case (Inl m)
    from service_getEmails_error_origin [OF Inl]
    obtain e where m: "m = ''Failed to fetch emails: '' @ e"
      and o: "getEmails_listed host u f = Inl e \<or> (\<exists>i. messages_get ?G i = Inl e)"
      by blast
    from wrapped [OF f] Inl m a have "js_includes e ''invalid_grant'' \<or> js_includes e ''Token''"
      by simp
    with o show ?thesis
      by blast
  qed
  have c7: "\<exists>e. (js_includes e ''invalid_grant'' \<or> js_includes e ''Token'') \<and> messages_get ?G i = Inl e"
    if i: "params req ''id'' = Some i" "i \<noteq> []" and a: "getEmailById_endpoint host req = authExpired" for i
  proof (cases "messages_get ?G i")
    case (Inl e)
    with c4 [OF i Inl] a show ?thesis
      by simp
  next
    case (Inr msg)
    with assms i a show ?thesis
      by (simp add: getEmailById_endpoint_def emailController_getEmailById_def
            gmailService_getEmailById_def authExpired_def Let_def)
  qed
  from c1 c2 c3 c4 c5 c6 c7 show ?thesis
    by blast
qed

theorem auth_expired_classification_witness:
  "getEmails_endpoint (mockHost (rejectingGmail ''invalid_grant'')) (mockRequest Map.empty Map.empty)
     = \<lparr>status = 401,
        json = JObj [(''error'', JStr ''Google authentication expired. Please re-authenticate.''),
                     (''code'', JStr ''AUTH_EXPIRED'')]\<rparr>
   \<and> getEmailById_endpoint (mockHost (rejectingGmail ''Token expired'')) (mockRequest [''id'' \<mapsto> ''123''] Map.empty)
     = \<lparr>status = 401,
        json = JObj [(''error'', JStr ''Google authentication expired. Please re-authenticate.''),
                     (''code'', JStr ''AUTH_EXPIRED'')]\<rparr>
   \<and> getEmails_endpoint (mockHost (rejectingGmail ''API Error'')) (mockRequest Map.empty Map.empty)
     \<noteq> authExpired
   \<and> getEmails_endpoint (mockHost (listingGmail [''1'', ''2''] ''invalid_grant'')) (mockRequest Map.empty Map.empty)
     = \<lparr>status = 401,
        json = JObj [(''error'', JStr ''Google authentication expired. Please re-authenticate.''),
                     (''code'', JStr ''AUTH_EXPIRED'')]\<rparr>"
proof -
  let ?req = "mockRequest Map.empty Map.empty"
  let ?req' = "mockRequest [''id'' \<mapsto> ''123''] Map.empty"
  let ?f = "\<lparr>isRead = None, timeRange = None, timeValue = None, maxResults = None\<rparr>"
  have u: "user ?req = Some mockUser" and u': "user ?req' = Some mockUser"
    by (simp_all add: mockRequest_def)
  have f: "getEmails_filters (query ?req) = Inr ?f"
    by (simp add: mockRequest_def getEmails_filters_def)
  have i: "params ?req' ''id'' = Some ''123''"
    by (simp add: mockRequest_def)
  have l: "getEmails_listed (mockHost (rejectingGmail e)) mockUser ?f = Inl e" for e
    by (simp add: getEmails_listed_def mockHost_def rejectingGmail_def)
  have g: "messages_get (google_gmail (mockHost (rejectingGmail e)) (createOAuth2Client mockUser)) ''123'' = Inl e" for e
    by (simp add: mockHost_def rejectingGmail_def)
  have l': "getEmails_listed (mockHost (listingGmail [''1'', ''2''] e)) mockUser ?f = Inr (Some [''1'', ''2''])" for e
    by (simp add: getEmails_listed_def mockHost_def listingGmail_def)
  have g': "messages_get (google_gmail (mockHost (listingGmail [''1'', ''2''] e)) (createOAuth2Client mockUser)) j = Inl e" for e j
    by (simp add: mockHost_def listingGmail_def)
  have 1: "getEmails_endpoint (mockHost (rejectingGmail ''invalid_grant'')) ?req = authExpired"
    using auth_expired_classification [OF u, where host = "mockHost (rejectingGmail ''invalid_grant'')"] f l [of "''invalid_grant''"] by simp
  have 2: "getEmailById_endpoint (mockHost (rejectingGmail ''Token expired'')) ?req' = authExpired"
    using auth_expired_classification [OF u', where host = "mockHost (rejectingGmail ''Token expired'')"] i g [of "''Token expired''"] by simp
  have 3: "getEmails_endpoint (mockHost (rejectingGmail ''API Error'')) ?req \<noteq> authExpired"
    using auth_expired_classification [OF u, where host = "mockHost (rejectingGmail ''API Error'')"] f l [of "''API Error''"] by simp
  have "(getEmails_endpoint (mockHost (listingGmail [''1'', ''2''] ''invalid_grant'')) ?req = authExpired)
          = (js_includes ''invalid_grant'' ''invalid_grant'' \<or> js_includes ''invalid_grant'' ''Token'')"
    using auth_expired_classification [OF u, where host = "mockHost (listingGmail [''1'', ''2''] ''invalid_grant'')",
            THEN conjunct2, THEN conjunct2, THEN conjunct2, THEN conjunct2, THEN conjunct1,
            rule_format, OF f l' [of "''invalid_grant''"], of "''1''" "''invalid_grant''"]
          g' [of "''invalid_grant''"]
    by simp
  then have 4: "getEmails_endpoint (mockHost (listingGmail [''1'', ''2''] ''invalid_grant'')) ?req = authExpired"
    by simp
  from 1 2 3 4 show ?thesis
    by (simp add: authExpired_def)
qed

text \<open>
  The end-to-end claim about a remote lookup that throws \<open>Not Found\<close>, as the
  specification states it, fails: the \<open>message\<close> of the 404 body is not the remote
  error's message but the message of the error that the service throws in its place.
\<close>

theorem getEmailById_not_found_counterexample:
  "getEmailById_endpoint (mockHost (rejectingGmail ''Not Found'')) (mockRequest [''id'' \<mapsto> ''999''] Map.empty)
     = \<lparr>status = 404,
        json = JObj [(''error'', JStr ''Email not found''),
                     (''message'', JStr ''Failed to fetch email: Not Found'')]\<rparr>
   \<and> getEmailById_endpoint (mockHost (rejectingGmail ''Not Found'')) (mockRequest [''id'' \<mapsto> ''999''] Map.empty)
     \<noteq> \<lparr>status = 404,
        json = JObj [(''error'', JStr ''Email not found''), (''message'', JStr ''Not Found'')]\<rparr>"
  by (simp add: getEmailById_endpoint_def emailController_getEmailById_def
        gmailService_getEmailById_def mockRequest_def mockHost_def rejectingGmail_def
        createOAuth2Client_def authExpired_def)

text \<open>
  C5 (amended). When the remote lookup of \<open>getEmailById\<close> throws an error whose message
  contains \<open>Not Found\<close> or \<open>404\<close> and neither \<open>invalid_grant\<close> nor \<open>Token\<close>, the
  get-by-id endpoint answers 404 with the body \<open>{error: "Email not found", message: m}\<close>
  where \<open>m\<close> is \<open>Failed to fetch email: \<close> followed by the remote error's message:
  for the remote message \<open>Not Found\<close> the body is \<open>{error: "Email not found",
  message: "Failed to fetch email: Not Found"}\<close>.
\<close>

theorem getEmailById_not_found_wrapped:
  assumes "user req = Some u"
    and "params req ''id'' = Some i" and "i \<noteq> []"
    and "messages_get (google_gmail host (createOAuth2Client u)) i = Inl e"
    and "js_includes e ''Not Found'' \<or> js_includes e ''404''"
    and "\<not> js_includes e ''invalid_grant''" and "\<not> js_includes e ''Token''"
  shows "getEmailById_endpoint host req =
           \<lparr>status = 404,
            json = JObj [(''error'', JStr ''Email not found''),
                         (''message'', JStr (''Failed to fetch email: '' @ e))]\<rparr>"
proof -
  have s: "gmailService_getEmailById host u i = Inl (''Failed to fetch email: '' @ e)"
    using assms(4) by (rule service_getEmailById_error)
  have nf: "js_includes (''Failed to fetch email: '' @ e) ''Not Found''
            \<or> js_includes (''Failed to fetch email: '' @ e) ''404''"
    using assms(5) js_includes_append_left by blast
  have na: "\<not> js_includes (''Failed to fetch email: '' @ e) ''invalid_grant''"
           "\<not> js_includes (''Failed to fetch email: '' @ e) ''Token''"
    using assms(6,7) by simp_all
  show ?thesis
    unfolding getEmailById_endpoint_def
    using controller_getEmailById_error
            [where service = "gmailService_getEmailById host", OF assms(1) assms(2) assms(3) s] nf na
    by (simp del: js_includes.simps)
qed

theorem getEmailById_not_found_wrapped_witness:
  "getEmailById_endpoint (mockHost (rejectingGmail ''404 from remote'')) (mockRequest [''id'' \<mapsto> ''999''] Map.empty)
     = \<lparr>status = 404,
        json = JObj [(''error'', JStr ''Email not found''),
                     (''message'', JStr ''Failed to fetch email: 404 from remote'')]\<rparr>"
  using getEmailById_not_found_wrapped
          [of "mockRequest [''id'' \<mapsto> ''999''] Map.empty" mockUser "''999''"
              "mockHost (rejectingGmail ''404 from remote'')" "''404 from remote''"]
  by (simp add: mockRequest_def mockHost_def rejectingGmail_def)

section \<open>The filter normalizer\<close>

text \<open>
  The filter block of \<open>getEmails\<close> as one chain of checks, in the order of the source,
  followed by the filters it builds when every check passes.
\<close>

lemma getEmails_filters_alt:
  "getEmails_filters q =
     (if truthy (q ''timeRange'') \<and> timeRangeOf (the (q ''timeRange'')) = None
      then Inl (badRequest ''Invalid timeRange. Must be one of: hours, days, weeks, months'')
      else if truthy (q ''timeValue'')
              \<and> (case parseInt (the (q ''timeValue'')) of None \<Rightarrow> True | Some n \<Rightarrow> n \<le> 0)
      then Inl (badRequest ''timeValue must be a positive number'')
      else if truthy (q ''maxResults'')
              \<and> (case parseInt (the (q ''maxResults'')) of None \<Rightarrow> True | Some n \<Rightarrow> n \<le> 0 \<or> n > 500)
      then Inl (badRequest ''maxResults must be between 1 and 500'')
      else if truthy (q ''timeRange'') \<and> \<not> truthy (q ''timeValue'')
      then Inl (badRequest ''timeValue is required when timeRange is specified'')
      else if truthy (q ''timeValue'') \<and> \<not> truthy (q ''timeRange'')
      then Inl (badRequest ''timeRange is required when timeValue is specified'')
      else Inr \<lparr>isRead = map_option (\<lambda>v. v = ''true'') (q ''isRead''),
                timeRange = (if truthy (q ''timeRange'') then timeRangeOf (the (q ''timeRange'')) else None),
                timeValue = (if truthy (q ''timeValue'') then parseInt (the (q ''timeValue'')) else None),
                maxResults = (if truthy (q ''maxResults'') then parseInt (the (q ''maxResults'')) else None)\<rparr>)"
  by (cases "q ''isRead''"; cases "truthy (q ''timeRange'')"; cases "timeRangeOf (the (q ''timeRange''))";
      cases "truthy (q ''timeValue'')"; cases "parseInt (the (q ''timeValue''))";
      cases "truthy (q ''maxResults'')"; cases "parseInt (the (q ''maxResults''))";
      simp add: getEmails_filters_def Let_def)


lemma maxResults_rejected_iff:
  "(truthy (q ''maxResults'')
      \<and> (case parseInt (the (q ''maxResults'')) of None \<Rightarrow> True | Some n \<Rightarrow> n \<le> 0 \<or> n > 500))
   \<longleftrightarrow> \<not> maxResultsAccepted q"
  by (auto simp: maxResultsAccepted_def split: option.splits)

text \<open>
  The claim that a value of \<open>isRead\<close> other than \<open>true\<close> and \<open>false\<close> is treated as
  if the flag were absent fails: \<open>req.query.isRead === 'true'\<close> is assigned whenever
  the parameter is present, so every other value sets the flag to \<open>false\<close>.
\<close>

theorem isRead_parsing_counterexample:
  "getEmails_filters [''isRead'' \<mapsto> ''yes'']
     = Inr \<lparr>isRead = Some False, timeRange = None, timeValue = None, maxResults = None\<rparr>
   \<and> getEmails_filters [''isRead'' \<mapsto> ''TRUE'']
     = Inr \<lparr>isRead = Some False, timeRange = None, timeValue = None, maxResults = None\<rparr>
   \<and> getEmails_filters [''isRead'' \<mapsto> ''1'']
     = Inr \<lparr>isRead = Some False, timeRange = None, timeValue = None, maxResults = None\<rparr>
   \<and> getEmails_filters Map.empty
     = Inr \<lparr>isRead = None, timeRange = None, timeValue = None, maxResults = None\<rparr>"
  by (simp add: getEmails_filters_def)

text \<open>
  C9 (amended). For every raw filter parameter map that the normalizer accepts: when the
  \<open>isRead\<close> parameter is absent the Filter Record has no \<open>isRead\<close>; when it is present
  \<open>isRead\<close> is \<open>true\<close> if the value is exactly \<open>true\<close> (case-sensitive) and \<open>false\<close>
  for every other value, \<open>false\<close>, \<open>TRUE\<close>, \<open>yes\<close>, \<open>1\<close> and the empty string
  alike. No value of \<open>isRead\<close> is treated as absent, and none changes whether the request
  is accepted.
\<close>

theorem isRead_parsing:
  "(getEmails_filters q = Inr f \<longrightarrow>
      isRead f = (case q ''isRead'' of None \<Rightarrow> None | Some v \<Rightarrow> Some (v = ''true'')))
   \<and> isl (getEmails_filters (q(''isRead'' := x))) = isl (getEmails_filters q)"
proof
  show "getEmails_filters q = Inr f \<longrightarrow>
      isRead f = (case q ''isRead'' of None \<Rightarrow> None | Some v \<Rightarrow> Some (v = ''true''))"
    unfolding getEmails_filters_alt
    by (cases "q ''isRead''") (auto split: if_splits)
  show "isl (getEmails_filters (q(''isRead'' := x))) = isl (getEmails_filters q)"
    unfolding getEmails_filters_alt by simp
qed

theorem isRead_parsing_witness:
  "getEmails_filters [''isRead'' \<mapsto> ''true'']
     = Inr \<lparr>isRead = Some True, timeRange = None, timeValue = None, maxResults = None\<rparr>
   \<and> isRead \<lparr>isRead = Some True, timeRange = None, timeValue = None, maxResults = None\<rparr> = Some True
   \<and> getEmails_filters [''isRead'' \<mapsto> ''TRUE'']
     = Inr \<lparr>isRead = Some False, timeRange = None, timeValue = None, maxResults = None\<rparr>
   \<and> isRead \<lparr>isRead = Some False, timeRange = None, timeValue = None, maxResults = None\<rparr> = Some False"
proof -
  have t: "getEmails_filters [''isRead'' \<mapsto> ''true'']
     = Inr \<lparr>isRead = Some True, timeRange = None, timeValue = None, maxResults = None\<rparr>"
    by (simp add: getEmails_filters_def)
  have f: "getEmails_filters [''isRead'' \<mapsto> ''TRUE'']
     = Inr \<lparr>isRead = Some False, timeRange = None, timeValue = None, maxResults = None\<rparr>"
    by (simp add: getEmails_filters_def)
  from t f isRead_parsing [of "[''isRead'' \<mapsto> ''true'']"] isRead_parsing [of "[''isRead'' \<mapsto> ''TRUE'']"]
  show ?thesis by simp
qed

text \<open>
  C4. For every raw filter parameter map: if \<open>timeRange\<close> is present and valid but
  \<open>timeValue\<close> is absent (missing or empty), the request is rejected with status 400,
  and with the error \<open>timeValue is required when timeRange is specified\<close> whenever
  \<open>maxResults\<close> passes its own check, which comes first (otherwise the 400 carries the
  error of that check). If \<open>timeValue\<close> is present and valid but \<open>timeRange\<close> is
  absent, the request is rejected with status 400 in the same way, with the error
  \<open>timeRange is required when timeValue is specified\<close>. If both are absent, the request
  is valid with no time filter (unless \<open>maxResults\<close> fails its check). Nothing is
  defaulted: an accepted Filter Record has a time range exactly when it has a time value,
  and then both parameters were given.
\<close>

theorem time_window_cross_field:
  "(truthy (q ''timeRange'') \<and> timeRangeOf (the (q ''timeRange'')) \<noteq> None \<and> \<not> truthy (q ''timeValue'') \<longrightarrow>
      getEmails_filters q =
        Inl (badRequest (if maxResultsAccepted q
                         then ''timeValue is required when timeRange is specified''
                         else ''maxResults must be between 1 and 500'')))
   \<and> (\<not> truthy (q ''timeRange'') \<and> truthy (q ''timeValue'')
        \<and> (\<exists>n. parseInt (the (q ''timeValue'')) = Some n \<and> 0 < n) \<longrightarrow>
      getEmails_filters q =
        Inl (badRequest (if maxResultsAccepted q
                         then ''timeRange is required when timeValue is specified''
                         else ''maxResults must be between 1 and 500'')))
   \<and> (\<not> truthy (q ''timeRange'') \<and> \<not> truthy (q ''timeValue'') \<longrightarrow>
      (if maxResultsAccepted q
       then (\<exists>f. getEmails_filters q = Inr f \<and> timeRange f = None \<and> timeValue f = None)
       else getEmails_filters q = Inl (badRequest ''maxResults must be between 1 and 500'')))
   \<and> (getEmails_filters q = Inr f \<longrightarrow>
        (timeRange f = None) = (timeValue f = None)
        \<and> (timeRange f \<noteq> None \<longrightarrow> truthy (q ''timeRange'') \<and> truthy (q ''timeValue'')))
   \<and> status (badRequest m) = 400"
proof (intro conjI impI)
  assume "truthy (q ''timeRange'') \<and> timeRangeOf (the (q ''timeRange'')) \<noteq> None \<and> \<not> truthy (q ''timeValue'')"
  then show "getEmails_filters q =
        Inl (badRequest (if maxResultsAccepted q
                         then ''timeValue is required when timeRange is specified''
                         else ''maxResults must be between 1 and 500''))"
    unfolding getEmails_filters_alt maxResults_rejected_iff by auto
next
  assume "\<not> truthy (q ''timeRange'') \<and> truthy (q ''timeValue'')
        \<and> (\<exists>n. parseInt (the (q ''timeValue'')) = Some n \<and> 0 < n)"
  then show "getEmails_filters q =
        Inl (badRequest (if maxResultsAccepted q
                         then ''timeRange is required when timeValue is specified''
                         else ''maxResults must be between 1 and 500''))"
    unfolding getEmails_filters_alt maxResults_rejected_iff by auto
next
  assume "\<not> truthy (q ''timeRange'') \<and> \<not> truthy (q ''timeValue'')"
  then show "if maxResultsAccepted q
       then (\<exists>f. getEmails_filters q = Inr f \<and> timeRange f = None \<and> timeValue f = None)
       else getEmails_filters q = Inl (badRequest ''maxResults must be between 1 and 500'')"
    unfolding getEmails_filters_alt maxResults_rejected_iff by simp
next
  assume "getEmails_filters q = Inr f"
  then show "(timeRange f = None) = (timeValue f = None)"
    unfolding getEmails_filters_alt by (auto split: if_splits option.splits)
next
  assume "getEmails_filters q = Inr f" and "timeRange f \<noteq> None"
  then show "truthy (q ''timeRange'')"
    unfolding getEmails_filters_alt by (auto split: if_splits)
next
  assume "getEmails_filters q = Inr f" and "timeRange f \<noteq> None"
  then show "truthy (q ''timeValue'')"
    unfolding getEmails_filters_alt by (auto split: if_splits)
next
  show "status (badRequest m) = 400"
    by (simp add: badRequest_def)
qed

theorem time_window_cross_field_witness:
  "getEmails_filters [''timeRange'' \<mapsto> ''days'']
     = Inl \<lparr>status = 400, json = JObj [(''error'', JStr ''timeValue is required when timeRange is specified'')]\<rparr>
   \<and> getEmails_filters [''timeValue'' \<mapsto> ''7'']
     = Inl \<lparr>status = 400, json = JObj [(''error'', JStr ''timeRange is required when timeValue is specified'')]\<rparr>
   \<and> (\<exists>f. getEmails_filters [''maxResults'' \<mapsto> ''100''] = Inr f \<and> timeRange f = None \<and> timeValue f = None)
   \<and> getEmails_filters [''timeRange'' \<mapsto> ''days'', ''maxResults'' \<mapsto> CHR 0xA0 # ''5'']
     = Inl \<lparr>status = 400, json = JObj [(''error'', JStr ''timeValue is required when timeRange is specified'')]\<rparr>
   \<and> getEmails_filters [''timeRange'' \<mapsto> ''days'', ''maxResults'' \<mapsto> ''0'']
     = Inl \<lparr>status = 400, json = JObj [(''error'', JStr ''maxResults must be between 1 and 500'')]\<rparr>"
proof -
  have p7: "parseInt ''7'' = Some 7" and p100: "parseInt ''100'' = Some 100"
    and p5: "parseInt (CHR 0xA0 # ''5'') = Some 5" and p0: "parseInt ''0'' = Some 0"
    by (simp_all add: parseInt_def isWhiteSpace_def digitValue_def)
  have d: "timeRangeOf ''days'' = Some days"
    by (simp add: timeRangeOf_def)
  have 1: "maxResultsAccepted [''timeRange'' \<mapsto> ''days'']" "maxResultsAccepted [''timeValue'' \<mapsto> ''7'']"
    "maxResultsAccepted [''maxResults'' \<mapsto> ''100'']"
    "maxResultsAccepted [''timeRange'' \<mapsto> ''days'', ''maxResults'' \<mapsto> CHR 0xA0 # ''5'']"
    "\<not> maxResultsAccepted [''timeRange'' \<mapsto> ''days'', ''maxResults'' \<mapsto> ''0'']"
    by (simp_all add: maxResultsAccepted_def p100 p5 p0)
  from time_window_cross_field [of "[''timeRange'' \<mapsto> ''days'']"]
       time_window_cross_field [of "[''timeValue'' \<mapsto> ''7'']"]
       time_window_cross_field [of "[''maxResults'' \<mapsto> ''100'']"]
       time_window_cross_field [of "[''timeRange'' \<mapsto> ''days'', ''maxResults'' \<mapsto> CHR 0xA0 # ''5'']"]
       time_window_cross_field [of "[''timeRange'' \<mapsto> ''days'', ''maxResults'' \<mapsto> ''0'']"]
       1 p7 d
  show ?thesis
    by (simp add: badRequest_def)
qed

section \<open>Body extraction\<close>

text \<open>
  The claim that the preference for \<open>text/plain\<close> is global across the levels of the
  tree fails: the loop stops at the first nested multipart child that yields a non-empty
  text, also when that text is html and a \<open>text/plain\<close> sibling follows. (The decoder
  is taken to be the identity here, so the data shown is the text.)
\<close>

theorem extractBody_plain_global_counterexample:
  "extractBody (\<lambda>d. d)
     (MessagePart (Some ''multipart/mixed'') None
        (Some [MessagePart (Some ''multipart/alternative'') None
                 (Some [MessagePart (Some ''text/html'') (Some ''<p>HTML body</p>'') None]),
               MessagePart (Some ''text/plain'') (Some ''Plain text body'') None]))
     = ''<p>HTML body</p>''"
  by simp

lemma scanParts_skip:
  assumes "\<not> (mimeType c = Some ''text/plain'' \<and> truthy (bodyData c))"
    and "parts c = None \<or> extractBody decode c = []"
  shows "\<exists>body'. scanParts decode body (c # rest) = scanParts decode body' rest"
proof (cases c)
  case (MessagePart mt bd ps)
  show ?thesis
  proof (cases "mt = Some ''text/html'' \<and> truthy bd \<and> body = []")
    case True
    with assms MessagePart show ?thesis
      by (auto simp del: extractBody.simps)
  next
    case False
    show ?thesis
    proof (cases "ps = None")
      case True
      with assms False MessagePart show ?thesis
        by (auto simp del: extractBody.simps)
    next
      case nonempty: False
      with assms(2) MessagePart have "extractBody decode (MessagePart mt bd ps) = []"
        by simp
      with assms(1) False nonempty MessagePart show ?thesis
        by (auto simp del: extractBody.simps simp: Let_def)
    qed
  qed
qed

lemma scanParts_first_plain:
  assumes "d \<noteq> []"
    and "\<forall>c \<in> set pre. \<not> (mimeType c = Some ''text/plain'' \<and> truthy (bodyData c))
                        \<and> (parts c = None \<or> extractBody decode c = [])"
  shows "scanParts decode body (pre @ MessagePart (Some ''text/plain'') (Some d) ps # rest) = decode d"
  using assms(2)
proof (induction pre arbitrary: body)
  case Nil
  from assms(1) show ?case by simp
next
  case (Cons c pre)
  from Cons.prems have c: "\<not> (mimeType c = Some ''text/plain'' \<and> truthy (bodyData c))"
      "parts c = None \<or> extractBody decode c = []"
    by simp_all
  from scanParts_skip [OF c]
  obtain body' where "scanParts decode body (c # pre @ MessagePart (Some ''text/plain'') (Some d) ps # rest)
        = scanParts decode body' (pre @ MessagePart (Some ''text/plain'') (Some d) ps # rest)"
    by blast
  moreover from Cons.prems
  have "scanParts decode body' (pre @ MessagePart (Some ''text/plain'') (Some d) ps # rest) = decode d"
    by (intro Cons.IH) simp
  ultimately show ?case by simp
qed

lemma scanParts_nested_first:
  assumes "list_all (inertChild decode) pre" and "nestedPart c" and "extractBody decode c \<noteq> []"
  shows "scanParts decode body (pre @ c # rest) = extractBody decode c"
  using assms(1)
proof (induction pre arbitrary: body)
  case Nil
  obtain mt bd ps where c: "c = MessagePart mt bd ps"
    by (cases c)
  with assms(2,3) show ?case
    by (auto simp: nestedPart_def Let_def simp del: extractBody.simps)
next
  case (Cons x pre)
  from Cons.prems have x: "\<not> (mimeType x = Some ''text/plain'' \<and> truthy (bodyData x))"
      "parts x = None \<or> extractBody decode x = []"
    by (simp_all add: inertChild_def)
  from scanParts_skip [OF x]
  obtain body' where "scanParts decode body (x # pre @ c # rest) = scanParts decode body' (pre @ c # rest)"
    by blast
  moreover from Cons.prems have "scanParts decode body' (pre @ c # rest) = extractBody decode c"
    by (intro Cons.IH) simp
  ultimately show ?case by simp
qed

lemma plainReached_extractBody:
  "plainReached decode n d \<Longrightarrow> extractBody decode n = decode d"
proof (induction rule: plainReached.induct)
  case (direct bd d pre mt ps rest)
  from direct(3) have "\<forall>c \<in> set pre. \<not> (mimeType c = Some ''text/plain'' \<and> truthy (bodyData c))
                        \<and> (parts c = None \<or> extractBody decode c = [])"
    by (simp add: list_all_iff inertChild_def)
  with direct(2)
  have "scanParts decode [] (pre @ MessagePart (Some ''text/plain'') (Some d) ps # rest) = decode d"
    by (rule scanParts_first_plain)
  with direct(1) show ?case
    by simp
next
  case (nested bd pre c d mt rest)
  from nested have "scanParts decode [] (pre @ c # rest) = extractBody decode c"
    by (intro scanParts_nested_first) simp_all
  with nested show ?case
    by simp
qed

text \<open>
  C6 (amended). For every remote message content tree: a \<open>text/plain\<close> part with data
  anywhere in the tree is returned in preference to every \<open>text/html\<close> part, whatever
  the order of the siblings and whatever the depth of either, provided that the nodes on
  the way down to it have no inline data and are nested parts, that at no level an earlier
  sibling of the way ends the scan (an earlier \<open>text/plain\<close> part with data, or an
  earlier child with a part list whose extraction is not empty), and that a text found
  below the first level does not decode to the empty string. In particular a node whose
  children are a \<open>text/html\<close> part followed by a \<open>text/plain\<close> part yields the plain
  text. The exception to the global preference is the one of the proviso: the first
  nested part whose extraction is not empty decides the result, be it html, whatever
  follows it.
\<close>

theorem extractBody_plain_preference:
  "(plainReached decode n d \<longrightarrow> extractBody decode n = decode d)
   \<and> (\<not> truthy bd \<and> d \<noteq> []
      \<and> (\<forall>c \<in> set pre. \<not> (mimeType c = Some ''text/plain'' \<and> truthy (bodyData c))
                          \<and> (parts c = None \<or> extractBody decode c = [])) \<longrightarrow>
      extractBody decode
        (MessagePart mt bd (Some (pre @ MessagePart (Some ''text/plain'') (Some d) ps # rest)))
        = decode d)
   \<and> (\<not> truthy bd \<and> h \<noteq> [] \<and> d \<noteq> [] \<longrightarrow>
      extractBody decode
        (MessagePart mt bd (Some [MessagePart (Some ''text/html'') (Some h) hps,
                                  MessagePart (Some ''text/plain'') (Some d) ps]))
        = decode d)
   \<and> (\<not> truthy bd \<and> list_all (inertChild decode) pre \<and> nestedPart c
        \<and> extractBody decode c \<noteq> [] \<longrightarrow>
      extractBody decode (MessagePart mt bd (Some (pre @ c # rest))) = extractBody decode c)"
proof -
  have A: "extractBody decode n = decode d" if "plainReached decode n d"
    using that by (rule plainReached_extractBody)
  have B: "extractBody decode
        (MessagePart mt bd (Some (pre @ MessagePart (Some ''text/plain'') (Some d) ps # rest)))
        = decode d"
    if a: "\<not> truthy bd \<and> d \<noteq> []
      \<and> (\<forall>c \<in> set pre. \<not> (mimeType c = Some ''text/plain'' \<and> truthy (bodyData c))
                          \<and> (parts c = None \<or> extractBody decode c = []))"
  proof -
    from a have "scanParts decode [] (pre @ MessagePart (Some ''text/plain'') (Some d) ps # rest) = decode d"
      by (intro scanParts_first_plain) simp_all
    with a show ?thesis
      by simp
  qed
  have C: "extractBody decode
        (MessagePart mt bd (Some [MessagePart (Some ''text/html'') (Some h) hps,
                                  MessagePart (Some ''text/plain'') (Some d) ps]))
        = decode d"
    if "\<not> truthy bd \<and> h \<noteq> [] \<and> d \<noteq> []"
    using that by simp
  have D: "extractBody decode (MessagePart mt bd (Some (pre @ c # rest))) = extractBody decode c"
    if a: "\<not> truthy bd \<and> list_all (inertChild decode) pre \<and> nestedPart c
        \<and> extractBody decode c \<noteq> []"
  proof -
    from a have "scanParts decode [] (pre @ c # rest) = extractBody decode c"
      by (intro scanParts_nested_first) simp_all
    with a show ?thesis
      by simp
  qed
  from A B C D show ?thesis
    by blast
qed

theorem extractBody_plain_preference_witness:
  "extractBody (\<lambda>d. d)
     (MessagePart (Some ''multipart/mixed'') None
        (Some [MessagePart (Some ''text/html'') (Some ''<p>HTML body</p>'') None,
               MessagePart (Some ''multipart/alternative'') None
                 (Some [MessagePart (Some ''text/html'') (Some ''<p>nested HTML</p>'') None,
                        MessagePart (Some ''text/plain'') (Some ''Nested plain text'') None]),
               MessagePart (Some ''text/html'') (Some ''<p>later</p>'') None]))
     = ''Nested plain text''"
proof -
  let ?plain = "MessagePart (Some ''text/plain'') (Some ''Nested plain text'') None"
  let ?inner = "MessagePart (Some ''multipart/alternative'') None
                 (Some ([MessagePart (Some ''text/html'') (Some ''<p>nested HTML</p>'') None] @ ?plain # []))"
  let ?outer = "MessagePart (Some ''multipart/mixed'') None
        (Some ([MessagePart (Some ''text/html'') (Some ''<p>HTML body</p>'') None] @ ?inner
               # [MessagePart (Some ''text/html'') (Some ''<p>later</p>'') None]))"
  have "plainReached (\<lambda>d. d) ?inner ''Nested plain text''"
    by (rule plainReached.direct) (simp_all add: inertChild_def)
  then have "plainReached (\<lambda>d. d) ?outer ''Nested plain text''"
    by (rule plainReached.nested [rotated 3]) (simp_all add: inertChild_def nestedPart_def)
  with extractBody_plain_preference [of "\<lambda>d. d" ?outer "''Nested plain text''"]
  have "extractBody (\<lambda>d. d) ?outer = ''Nested plain text''"
    by blast
  then show ?thesis
    by (simp del: extractBody.simps scanParts.simps)
qed

section \<open>Query synthesis\<close>

text \<open>
  The claim that every Filter Record with a time window yields an \<open>after:\<close> clause with
  the calendar date of the cutoff fails for a window so long that the cutoff is no valid
  date: 4000000 months before a current time in 2023 is more than 8.64e15 ms before the
  epoch, \<open>new Date\<close> of it is an invalid date, and its fields are rendered as \<open>NaN\<close>.
  Nor is the year always rendered with four digits: it is not padded, and 13000 months
  before the same time the clause is \<open>after:956/02/01\<close>. (The host's time zone is UTC
  here.)
\<close>

theorem buildQuery_invalid_date_counterexample:
  "buildQuery utcCalendar 1700000000000
      \<lparr>isRead = None, timeRange = Some months, timeValue = Some 4000000, maxResults = None\<rparr>
     = ''after:NaN/NaN/NaN''
   \<and> buildQuery utcCalendar 1700000000000
      \<lparr>isRead = None, timeRange = Some months, timeValue = Some 13000, maxResults = None\<rparr>
     = ''after:956/02/01''"
proof
  show "buildQuery utcCalendar 1700000000000
      \<lparr>isRead = None, timeRange = Some months, timeValue = Some 4000000, maxResults = None\<rparr>
     = ''after:NaN/NaN/NaN''"
    by (simp add: buildQuery_def newDate_def padStart_def)
  show "buildQuery utcCalendar 1700000000000
      \<lparr>isRead = None, timeRange = Some months, timeValue = Some 13000, maxResults = None\<rparr>
     = ''after:956/02/01''"
    by code_simp
qed

lemma digitChar_digit: "digitChar d \<in> set ''0123456789''"
  unfolding digitChar_def by (rule nth_mem) simp

lemma natString_digits: "isDigits (natString n)"
proof (induction n rule: natString.induct)
  case (1 n)
  show ?case
  proof (cases "n < 10")
    case True
    then show ?thesis
      using digitChar_digit [of n] by (subst natString.simps) (simp add: isDigits_def)
  next
    case False
    with 1 show ?thesis
      using digitChar_digit [of "n mod 10"] by (subst natString.simps) (simp add: isDigits_def)
  qed
qed

lemma natString_length:
  "length (natString n) = (if n < 10 then 1 else Suc (length (natString (n div 10))))"
  by (subst natString.simps) simp

lemma natString_length_1: "n < 10 \<Longrightarrow> length (natString n) = 1"
  by (simp add: natString_length)

lemma natString_length_2: "10 \<le> n \<Longrightarrow> n < 100 \<Longrightarrow> length (natString n) = 2"
  by (subst natString_length) (simp add: natString_length_1)

lemma natString_length_3: "100 \<le> n \<Longrightarrow> n < 1000 \<Longrightarrow> length (natString n) = 3"
  by (subst natString_length) (simp add: natString_length_2)

lemma natString_length_4: "1000 \<le> n \<Longrightarrow> n < 10000 \<Longrightarrow> length (natString n) = 4"
  by (subst natString_length) (simp add: natString_length_3)

lemma list_all_replicate: "P x \<Longrightarrow> list_all P (replicate n x)"
  by (induction n) simp_all

lemma pad2_length:
  assumes "n < 100"
  shows "length (padStart 2 CHR ''0'' (natString n)) = 2" and "isDigits (padStart 2 CHR ''0'' (natString n))"
proof -
  have d: "isDigits (natString n)" by (rule natString_digits)
  show "length (padStart 2 CHR ''0'' (natString n)) = 2"
    using assms by (cases "n < 10") (simp_all add: padStart_def natString_length_1 natString_length_2)
  show "isDigits (padStart 2 CHR ''0'' (natString n))"
    using d unfolding padStart_def isDigits_def list_all_append
    by (intro conjI list_all_replicate) simp_all
qed

lemma afterClause_shape:
  assumes "- 8640000000000000 \<le> t" and "t \<le> 8640000000000000" and "cal t = (y, m, d)"
    and "1000 \<le> y" and "y \<le> 9999" and "0 \<le> m" and "m \<le> 11" and "1 \<le> d" and "d \<le> 31"
  shows "\<exists>Y M D. afterClause cal t = ''after:'' @ Y @ ''/'' @ M @ ''/'' @ D
           \<and> length Y = 4 \<and> length M = 2 \<and> length D = 2
           \<and> isDigits Y \<and> isDigits M \<and> isDigits D"
proof -
  let ?Y = "natString (nat y)"
  let ?M = "padStart 2 CHR ''0'' (natString (nat (m + 1)))"
  let ?D = "padStart 2 CHR ''0'' (natString (nat d))"
  have "afterClause cal t = ''after:'' @ ?Y @ ''/'' @ ?M @ ''/'' @ ?D"
    using assms by (simp add: afterClause_def)
  moreover have "length ?Y = 4"
    using assms by (intro natString_length_4) simp_all
  moreover have "length ?M = 2" "isDigits ?M"
    using assms by (simp_all add: pad2_length)
  moreover have "length ?D = 2" "isDigits ?D"
    using assms by (simp_all add: pad2_length)
  moreover have "isDigits ?Y"
    by (rule natString_digits)
  ultimately show ?thesis
    by blast
qed

lemma afterDate_clause:
  "''after:'' @ numberString (getFullYear cal (newDate t)) @ ''/''
      @ padStart 2 CHR ''0'' (numberString (map_option (\<lambda>m. m + 1) (getMonth cal (newDate t)))) @ ''/''
      @ padStart 2 CHR ''0'' (numberString (getDate cal (newDate t)))
   = afterClause cal t"
  by (cases "cal t") (simp add: afterClause_def newDate_def padStart_def)

text \<open>
  C7 (amended). For every Filter Record (a time value, when set, is positive), every
  current time and every host calendar, the synthesized query is the list of the
  applicable clauses joined by single spaces: \<open>is:read\<close> if \<open>isRead\<close> is true,
  \<open>is:unread\<close> if it is false, nothing if it is unset; and, if both \<open>timeRange\<close> and
  \<open>timeValue\<close> are set, a clause for the cutoff instant now - timeValue * unit, with the
  units hours = 3600 s, days = 24 h, weeks = 7 days and months = 30 days. When the cutoff
  lies within 8.64e15 ms of the epoch the clause is \<open>after:Y/MM/DD\<close> for the local
  calendar date of the cutoff, with the year \<open>Y\<close> in decimal without padding and month
  and day padded to two digits, so \<open>after:YYYY/MM/DD\<close> with digits throughout for a
  date of the years 1000 to 9999; otherwise it is \<open>after:NaN/NaN/NaN\<close>. With no applicable filter the query is the empty string. The
  query is a function of the filter, the current time and the calendar.
\<close>

theorem buildQuery_clauses:
  "((\<forall>tv. timeValue f = Some tv \<longrightarrow> 0 < tv) \<longrightarrow>
      buildQuery cal now f = js_join '' '' (queryClauses cal now f))
   \<and> (isRead f = None \<and> (timeRange f = None \<or> timeValue f = None) \<longrightarrow> buildQuery cal now f = [])
   \<and> (- 8640000000000000 \<le> t \<and> t \<le> 8640000000000000 \<and> cal t = (y, m, d)
        \<and> 1000 \<le> y \<and> y \<le> 9999 \<and> 0 \<le> m \<and> m \<le> 11 \<and> 1 \<le> d \<and> d \<le> 31 \<longrightarrow>
        (\<exists>Y M D. afterClause cal t = ''after:'' @ Y @ ''/'' @ M @ ''/'' @ D
           \<and> length Y = 4 \<and> length M = 2 \<and> length D = 2
           \<and> isDigits Y \<and> isDigits M \<and> isDigits D))
   \<and> (t < - 8640000000000000 \<or> 8640000000000000 < t \<longrightarrow> afterClause cal t = ''after:NaN/NaN/NaN'')"
proof (intro conjI impI)
  assume pos: "\<forall>tv. timeValue f = Some tv \<longrightarrow> 0 < tv"
  show "buildQuery cal now f = js_join '' '' (queryClauses cal now f)"
  proof (cases "timeRange f")
    case None
    then show ?thesis
      by (simp add: buildQuery_def queryClauses_def split: option.splits)
  next
    case (Some tr)
    show ?thesis
    proof (cases "timeValue f")
      case None
      with Some show ?thesis
        by (simp add: buildQuery_def queryClauses_def split: option.splits)
    next
      case tv: (Some tv)
      with pos have "tv \<noteq> 0" by auto
      have c: "cutoffInstant now tr tv =
                 (case tr of
                    hours \<Rightarrow> now - tv * 60 * 60 * 1000
                  | days \<Rightarrow> now - tv * 24 * 60 * 60 * 1000
                  | weeks \<Rightarrow> now - tv * 7 * 24 * 60 * 60 * 1000
                  | months \<Rightarrow> now - tv * 30 * 24 * 60 * 60 * 1000)"
        by (cases tr) (simp_all add: cutoffInstant_def unitSeconds_def)
      have "buildQuery cal now f =
              js_join '' '' ((case isRead f of
                                None \<Rightarrow> []
                              | Some r \<Rightarrow> [if r then ''is:read'' else ''is:unread''])
                             @ [afterClause cal (cutoffInstant now tr tv)])"
        unfolding c afterDate_clause [symmetric]
        using Some tv \<open>tv \<noteq> 0\<close>
        by (cases tr; cases "isRead f") (simp_all add: buildQuery_def Let_def del: js_join.simps)
      with Some tv show ?thesis
        by (simp add: queryClauses_def)
    qed
  qed
next
  assume "isRead f = None \<and> (timeRange f = None \<or> timeValue f = None)"
  then show "buildQuery cal now f = []"
    by (auto simp: buildQuery_def split: option.splits)
next
  assume a: "- 8640000000000000 \<le> t \<and> t \<le> 8640000000000000 \<and> cal t = (y, m, d)
        \<and> 1000 \<le> y \<and> y \<le> 9999 \<and> 0 \<le> m \<and> m \<le> 11 \<and> 1 \<le> d \<and> d \<le> 31"
  show "\<exists>Y M D. afterClause cal t = ''after:'' @ Y @ ''/'' @ M @ ''/'' @ D
           \<and> length Y = 4 \<and> length M = 2 \<and> length D = 2
           \<and> isDigits Y \<and> isDigits M \<and> isDigits D"
    by (rule afterClause_shape) (use a in blast)+
next
  assume "t < - 8640000000000000 \<or> 8640000000000000 < t"
  then show "afterClause cal t = ''after:NaN/NaN/NaN''"
    by (auto simp: afterClause_def)
qed

theorem buildQuery_clauses_witness:
  "buildQuery utcCalendar 1700000000000
      \<lparr>isRead = Some False, timeRange = Some days, timeValue = Some 7, maxResults = None\<rparr>
     = ''is:unread after:2023/11/07''
   \<and> buildQuery utcCalendar 1700000000000
      \<lparr>isRead = None, timeRange = None, timeValue = None, maxResults = Some 10\<rparr> = []"
proof -
  have "js_join '' '' (queryClauses utcCalendar 1700000000000
      \<lparr>isRead = Some False, timeRange = Some days, timeValue = Some 7, maxResults = None\<rparr>)
     = ''is:unread after:2023/11/07''"
    by code_simp
  with buildQuery_clauses [of "\<lparr>isRead = Some False, timeRange = Some days, timeValue = Some 7, maxResults = None\<rparr>"
                              utcCalendar 1700000000000, THEN conjunct1]
  have 1: "buildQuery utcCalendar 1700000000000
      \<lparr>isRead = Some False, timeRange = Some days, timeValue = Some 7, maxResults = None\<rparr>
     = ''is:unread after:2023/11/07''"
    by simp
  from buildQuery_clauses [of "\<lparr>isRead = None, timeRange = None, timeValue = None, maxResults = Some 10\<rparr>"
                              utcCalendar 1700000000000, THEN conjunct2, THEN conjunct1]
  have 2: "buildQuery utcCalendar 1700000000000
      \<lparr>isRead = None, timeRange = None, timeValue = None, maxResults = Some 10\<rparr> = []"
    by simp
  from 1 2 show ?thesis by blast
qed

section \<open>Header extraction\<close>

text \<open>
  Two parts of the claim about header extraction fail. Without a \<open>To\<close> header the
  recipients are \<open>"".split(",")\<close> trimmed, the list with the empty string as its only
  entry, not the empty list. And a \<open>Date\<close> header whose value the date parser rejects
  gives that invalid date: the current time is taken only when \<open>dateStr\<close> is empty.
  (The parser here rejects every string.)
\<close>

theorem parseHeaders_fallback_counterexample:
  "p_to (parseHeaders (\<lambda>s. InvalidDate) 1700000000000 []) = [[]]
   \<and> p_to (parseHeaders (\<lambda>s. InvalidDate) 1700000000000 []) \<noteq> []
   \<and> p_date (parseHeaders (\<lambda>s. InvalidDate) 1700000000000
               [\<lparr>h_name = ''Date'', h_value = ''not a date''\<rparr>]) = InvalidDate
   \<and> p_date (parseHeaders (\<lambda>s. InvalidDate) 1700000000000
               [\<lparr>h_name = ''Date'', h_value = ''not a date''\<rparr>]) \<noteq> TimeValue 1700000000000"
  by (simp add: parseHeaders_def getHeader_def toLowerCase_def lowerChar_def upperLetters_def lowerLetters_def js_trim_def)

lemma getHeader_absent:
  "headerAbsent headers nm \<Longrightarrow> getHeader headers nm = []"
  by (induction headers) (auto simp: headerAbsent_def getHeader_def)

lemma getHeader_first:
  assumes "headerAbsent pre nm" and "toLowerCase (h_name h) = toLowerCase nm"
  shows "getHeader (pre @ h # post) nm = h_value h"
  using assms by (induction pre) (auto simp: headerAbsent_def getHeader_def)

lemma split_trim_empty: "map js_trim (js_split sep []) = [[]]"
  by (simp add: js_trim_def)

lemma js_split_no_separator: "w \<in> set (js_split sep s) \<Longrightarrow> sep \<notin> set w"
proof (induction s arbitrary: w)
  case Nil
  then show ?case by simp
next
  case (Cons c s)
  show ?case
  proof (cases "c = sep")
    case True
    with Cons show ?thesis by auto
  next
    case False
    show ?thesis
    proof (cases "js_split sep s")
      case Nil
      with Cons.prems False show ?thesis by simp
    next
      case (Cons v vs)
      with Cons.prems False have "w = c # v \<or> w \<in> set vs"
        by simp
      with Cons Cons.IH [of v] Cons.IH [of w] False show ?thesis
        by auto
    qed
  qed
qed

lemma js_trim_subset: "set (js_trim s) \<subseteq> set s"
proof -
  have "set (js_trim s) = set (dropWhile isWhiteSpace (rev (dropWhile isWhiteSpace s)))"
    by (simp add: js_trim_def)
  also have "\<dots> \<subseteq> set (rev (dropWhile isWhiteSpace s))"
    by (rule set_dropWhileD [THEN subsetI])
  also have "\<dots> \<subseteq> set s"
    by (auto dest: set_dropWhileD)
  finally show ?thesis .
qed

lemma js_trim_ends:
  assumes "js_trim s \<noteq> []"
  shows "\<not> isWhiteSpace (hd (js_trim s))" and "\<not> isWhiteSpace (last (js_trim s))"
proof -
  let ?t = "dropWhile isWhiteSpace s"
  let ?r = "dropWhile isWhiteSpace (rev ?t)"
  from assms have r: "?r \<noteq> []"
    by (simp add: js_trim_def)
  then have "\<not> isWhiteSpace (hd ?r)"
    by (rule hd_dropWhile)
  with r show "\<not> isWhiteSpace (last (js_trim s))"
    by (simp add: js_trim_def last_rev)
  have "?t = rev (takeWhile isWhiteSpace (rev ?t) @ ?r)"
    by (simp only: takeWhile_dropWhile_id rev_rev_ident)
  then have t: "?t = rev ?r @ rev (takeWhile isWhiteSpace (rev ?t))"
    by (simp only: rev_append)
  from r have "rev ?r \<noteq> []"
    by simp
  with t have "hd ?t = hd (rev ?r)"
    by (metis hd_append2)
  moreover have "?t \<noteq> []"
  proof
    assume "?t = []"
    then have "?r = []"
      by (simp only: rev.simps dropWhile.simps)
    with r show False
      by contradiction
  qed
  then have "\<not> isWhiteSpace (hd ?t)"
    by (rule hd_dropWhile)
  ultimately show "\<not> isWhiteSpace (hd (js_trim s))"
    by (simp add: js_trim_def)
qed

lemma js_join_split: "js_join [sep] (js_split sep s) = s"
proof (induction s)
  case Nil
  then show ?case by simp
next
  case (Cons c s)
  show ?case
  proof (cases "js_split sep s")
    case Nil
    with Cons show ?thesis by (cases "c = sep") auto
  next
    case (Cons v vs)
    with Cons.IH show ?thesis
      by (cases "c = sep"; cases vs) auto
  qed
qed

text \<open>
  C8 (amended). For every flat list of name/value header pairs, with names compared
  without regard to case and the first matching header taken: Subject and From are the
  value of the matching header, or the empty string when there is none; To is the value
  of the \<open>To\<close> header split on commas with each entry trimmed (no entry holds a comma,
  nor begins or ends with white space, the no-break space included), and the list with
  the empty string as its only entry when there is no \<open>To\<close> header; Date is what the date
  parser yields for the value of the \<open>Date\<close> header, an invalid date when the value is
  unparsable, and the current time when there is no \<open>Date\<close> header or its value is
  empty.
\<close>

theorem parseHeaders_fields:
  "(headerAbsent hs ''Subject'' \<longrightarrow> p_subject (parseHeaders parseDate now hs) = [])
   \<and> (headerAbsent hs ''From'' \<longrightarrow> p_from (parseHeaders parseDate now hs) = [])
   \<and> (headerAbsent hs ''To'' \<longrightarrow> p_to (parseHeaders parseDate now hs) = [[]])
   \<and> (headerAbsent hs ''Date'' \<longrightarrow> p_date (parseHeaders parseDate now hs) = TimeValue now)
   \<and> (hs = pre @ h # post \<and> headerAbsent pre ''Subject'' \<and> toLowerCase (h_name h) = ''subject'' \<longrightarrow>
        p_subject (parseHeaders parseDate now hs) = h_value h)
   \<and> (hs = pre @ h # post \<and> headerAbsent pre ''From'' \<and> toLowerCase (h_name h) = ''from'' \<longrightarrow>
        p_from (parseHeaders parseDate now hs) = h_value h)
   \<and> (hs = pre @ h # post \<and> headerAbsent pre ''To'' \<and> toLowerCase (h_name h) = ''to'' \<longrightarrow>
        p_to (parseHeaders parseDate now hs) = map js_trim (js_split CHR '','' (h_value h)))
   \<and> (hs = pre @ h # post \<and> headerAbsent pre ''Date'' \<and> toLowerCase (h_name h) = ''date'' \<longrightarrow>
        p_date (parseHeaders parseDate now hs)
          = (if h_value h = [] then TimeValue now else parseDate (h_value h)))
   \<and> (\<forall>e \<in> set (p_to (parseHeaders parseDate now hs)).
        CHR '','' \<notin> set e \<and> (e = [] \<or> (\<not> isWhiteSpace (hd e) \<and> \<not> isWhiteSpace (last e))))
   \<and> js_join '','' (js_split CHR '','' (getHeader hs ''To'')) = getHeader hs ''To''"
proof -
  have lc: "toLowerCase ''Subject'' = ''subject''" "toLowerCase ''From'' = ''from''"
    "toLowerCase ''To'' = ''to''" "toLowerCase ''Date'' = ''date''"
    by (simp_all add: toLowerCase_def lowerChar_def upperLetters_def lowerLetters_def)
  have entries: "CHR '','' \<notin> set e \<and> (e = [] \<or> (\<not> isWhiteSpace (hd e) \<and> \<not> isWhiteSpace (last e)))"
    if "e \<in> set (p_to (parseHeaders parseDate now hs))" for e
  proof -
    from that obtain w where w: "w \<in> set (js_split CHR '','' (getHeader hs ''To''))" and e: "e = js_trim w"
      by (auto simp: parseHeaders_def Let_def simp del: js_split.simps)
    from js_split_no_separator [OF w] js_trim_subset [of w] e have "CHR '','' \<notin> set e"
      by blast
    moreover from e js_trim_ends [of w]
    have "e = [] \<or> (\<not> isWhiteSpace (hd e) \<and> \<not> isWhiteSpace (last e))"
      by blast
    ultimately show ?thesis
      by blast
  qed
  have fields: "(headerAbsent hs ''Subject'' \<longrightarrow> p_subject (parseHeaders parseDate now hs) = [])
   \<and> (headerAbsent hs ''From'' \<longrightarrow> p_from (parseHeaders parseDate now hs) = [])
   \<and> (headerAbsent hs ''To'' \<longrightarrow> p_to (parseHeaders parseDate now hs) = [[]])
   \<and> (headerAbsent hs ''Date'' \<longrightarrow> p_date (parseHeaders parseDate now hs) = TimeValue now)
   \<and> (hs = pre @ h # post \<and> headerAbsent pre ''Subject'' \<and> toLowerCase (h_name h) = ''subject'' \<longrightarrow>
        p_subject (parseHeaders parseDate now hs) = h_value h)
   \<and> (hs = pre @ h # post \<and> headerAbsent pre ''From'' \<and> toLowerCase (h_name h) = ''from'' \<longrightarrow>
        p_from (parseHeaders parseDate now hs) = h_value h)
   \<and> (hs = pre @ h # post \<and> headerAbsent pre ''To'' \<and> toLowerCase (h_name h) = ''to'' \<longrightarrow>
        p_to (parseHeaders parseDate now hs) = map js_trim (js_split CHR '','' (h_value h)))
   \<and> (hs = pre @ h # post \<and> headerAbsent pre ''Date'' \<and> toLowerCase (h_name h) = ''date'' \<longrightarrow>
        p_date (parseHeaders parseDate now hs)
          = (if h_value h = [] then TimeValue now else parseDate (h_value h)))"
    by (intro conjI impI)
       (simp_all add: parseHeaders_def Let_def getHeader_absent getHeader_first lc split_trim_empty
                 del: js_split.simps)
  from fields entries js_join_split [of "CHR '',''" "getHeader hs ''To''"] show ?thesis
    by blast
qed

theorem parseHeaders_fields_witness:
  "parseHeaders (\<lambda>s. if s = ''Mon, 1 Jan 2024 10:00:00 GMT'' then TimeValue 1704103200000 else InvalidDate)
     1700000000000
     [\<lparr>h_name = ''SUBJECT'', h_value = ''Test Subject''\<rparr>,
      \<lparr>h_name = ''From'', h_value = ''sender@example.com''\<rparr>,
      \<lparr>h_name = ''to'', h_value = ''a@example.com ,'' @ CHR 0xA0 # ''b@example.com''\<rparr>,
      \<lparr>h_name = ''Date'', h_value = ''Mon, 1 Jan 2024 10:00:00 GMT''\<rparr>]
   = \<lparr>p_subject = ''Test Subject'', p_from = ''sender@example.com'',
      p_to = [''a@example.com'', ''b@example.com''], p_date = TimeValue 1704103200000\<rparr>"
proof -
  let ?P = "\<lambda>s. if s = ''Mon, 1 Jan 2024 10:00:00 GMT'' then TimeValue 1704103200000 else InvalidDate"
  let ?s = "\<lparr>h_name = ''SUBJECT'', h_value = ''Test Subject''\<rparr>"
  let ?f = "\<lparr>h_name = ''From'', h_value = ''sender@example.com''\<rparr>"
  let ?t = "\<lparr>h_name = ''to'', h_value = ''a@example.com ,'' @ CHR 0xA0 # ''b@example.com''\<rparr>"
  let ?d = "\<lparr>h_name = ''Date'', h_value = ''Mon, 1 Jan 2024 10:00:00 GMT''\<rparr>"
  let ?hs = "[?s, ?f, ?t, ?d]"
  have lc: "toLowerCase ''SUBJECT'' = ''subject''" "toLowerCase ''From'' = ''from''"
    "toLowerCase ''to'' = ''to''" "toLowerCase ''Date'' = ''date''"
    "toLowerCase ''Subject'' = ''subject''" "toLowerCase ''To'' = ''to''"
    by (simp_all add: toLowerCase_def lowerChar_def upperLetters_def lowerLetters_def)
  have tr: "map js_trim (js_split CHR '','' (''a@example.com ,'' @ CHR 0xA0 # ''b@example.com''))
              = [''a@example.com'', ''b@example.com'']"
    by (simp add: js_trim_def isWhiteSpace_def)
  have 1: "p_subject (parseHeaders ?P 1700000000000 ?hs) = ''Test Subject''"
    using parseHeaders_fields [of ?hs ?P 1700000000000 "[]" ?s "[?f, ?t, ?d]"]
    by (simp add: headerAbsent_def lc)
  have 2: "p_from (parseHeaders ?P 1700000000000 ?hs) = ''sender@example.com''"
    using parseHeaders_fields [of ?hs ?P 1700000000000 "[?s]" ?f "[?t, ?d]"]
    by (simp add: headerAbsent_def lc)
  have 3: "p_to (parseHeaders ?P 1700000000000 ?hs) = [''a@example.com'', ''b@example.com'']"
    using parseHeaders_fields [of ?hs ?P 1700000000000 "[?s, ?f]" ?t "[?d]"] tr
    by (simp add: headerAbsent_def lc del: js_split.simps)
  have 4: "p_date (parseHeaders ?P 1700000000000 ?hs) = TimeValue 1704103200000"
    using parseHeaders_fields [of ?hs ?P 1700000000000 "[?s, ?f, ?t]" ?d "[]"]
    by (simp add: headerAbsent_def lc)
  from 1 2 3 4 show ?thesis
    by (cases "parseHeaders ?P 1700000000000 ?hs") simp
qed

section \<open>Serialization of users\<close>

text \<open>
  C10. The \<open>toJSON\<close> transform of the user schema gives the same result for any two
  user objects that agree on every property other than \<open>googleAccessToken\<close> and
  \<open>googleRefreshToken\<close>. A serialized user has no \<open>googleAccessToken\<close>, no
  \<open>googleRefreshToken\<close>, no \<open>_id\<close> and no \<open>__v\<close> property, and its \<open>id\<close> is the
  string form of the \<open>_id\<close> of the object; every object with an \<open>_id\<close> is serialized.
\<close>

theorem toJSON_hides_tokens:
  "((\<forall>k. k \<noteq> ''googleAccessToken'' \<and> k \<noteq> ''googleRefreshToken'' \<longrightarrow> ret1 k = ret2 k) \<longrightarrow>
      toJSON_transform toStr str ret1 = toJSON_transform toStr str ret2)
   \<and> (toJSON_transform toStr str ret = Inr out \<longrightarrow>
        out ''googleAccessToken'' = None \<and> out ''googleRefreshToken'' = None
        \<and> out ''_id'' = None \<and> out ''__v'' = None
        \<and> (\<exists>i. ret ''_id'' = Some i \<and> out ''id'' = Some (str (toStr i))))
   \<and> (ret ''_id'' \<noteq> None \<longrightarrow> (\<exists>out'. toJSON_transform toStr str ret = Inr out'))"
proof -
  have A: "toJSON_transform toStr str ret1 = toJSON_transform toStr str ret2"
    if eq: "\<forall>k. k \<noteq> ''googleAccessToken'' \<and> k \<noteq> ''googleRefreshToken'' \<longrightarrow> ret1 k = ret2 k"
  proof (cases "ret2 ''_id''")
    case None
    from eq have "ret1 ''_id'' = ret2 ''_id''"
      by simp
    with None show ?thesis
      by (simp add: toJSON_transform_def)
  next
    case (Some v)
    from eq have i: "ret1 ''_id'' = ret2 ''_id''"
      by simp
    have "(ret1(''id'' \<mapsto> str (toStr v), ''_id'' := None, ''__v'' := None,
                ''googleAccessToken'' := None, ''googleRefreshToken'' := None)) k
          = (ret2(''id'' \<mapsto> str (toStr v), ''_id'' := None, ''__v'' := None,
                ''googleAccessToken'' := None, ''googleRefreshToken'' := None)) k" for k
      using eq by (simp del: fun_upd_apply add: fun_upd_def)
    then have "ret1(''id'' \<mapsto> str (toStr v), ''_id'' := None, ''__v'' := None,
                ''googleAccessToken'' := None, ''googleRefreshToken'' := None)
          = ret2(''id'' \<mapsto> str (toStr v), ''_id'' := None, ''__v'' := None,
                ''googleAccessToken'' := None, ''googleRefreshToken'' := None)"
      by (rule ext)
    with i Some show ?thesis
      by (simp add: toJSON_transform_def Let_def)
  qed
  have B: "out ''googleAccessToken'' = None \<and> out ''googleRefreshToken'' = None
        \<and> out ''_id'' = None \<and> out ''__v'' = None
        \<and> (\<exists>i. ret ''_id'' = Some i \<and> out ''id'' = Some (str (toStr i)))"
    if "toJSON_transform toStr str ret = Inr out"
    using that by (auto simp: toJSON_transform_def Let_def split: option.splits)
  have C: "\<exists>out'. toJSON_transform toStr str ret = Inr out'" if "ret ''_id'' \<noteq> None"
    using that by (auto simp: toJSON_transform_def Let_def)
  from A B C show ?thesis
    by blast
qed

theorem toJSON_hides_tokens_witness:
  "toJSON_transform docToString StringValue (mockDocument ''token-1'' ''refresh-1'')
     = toJSON_transform docToString StringValue (mockDocument ''token-2'' ''refresh-2'')
   \<and> (\<exists>out. toJSON_transform docToString StringValue (mockDocument ''token-1'' ''refresh-1'') = Inr out
          \<and> out ''googleAccessToken'' = None \<and> out ''googleRefreshToken'' = None
          \<and> out ''_id'' = None \<and> out ''__v'' = None
          \<and> out ''id'' = Some (StringValue ''507f1f77bcf86cd799439011''))"
proof -
  let ?r1 = "mockDocument ''token-1'' ''refresh-1''" and ?r2 = "mockDocument ''token-2'' ''refresh-2''"
  have agree: "\<forall>k. k \<noteq> ''googleAccessToken'' \<and> k \<noteq> ''googleRefreshToken'' \<longrightarrow> ?r1 k = ?r2 k"
    by (simp add: mockDocument_def)
  have i: "?r1 ''_id'' = Some (IdValue (ObjectId ''507f1f77bcf86cd799439011''))"
    by (simp add: mockDocument_def)
  note t = toJSON_hides_tokens [of ?r1 ?r2 docToString StringValue ?r1]
  from t agree have 1: "toJSON_transform docToString StringValue ?r1 = toJSON_transform docToString StringValue ?r2"
    by blast
  from t i obtain out where out: "toJSON_transform docToString StringValue ?r1 = Inr out"
    by auto
  with toJSON_hides_tokens [of ?r1 ?r2 docToString StringValue ?r1 out] i
  have "out ''googleAccessToken'' = None \<and> out ''googleRefreshToken'' = None
          \<and> out ''_id'' = None \<and> out ''__v'' = None
          \<and> out ''id'' = Some (StringValue ''507f1f77bcf86cd799439011'')"
    by auto
  with 1 out show ?thesis by blast
qed

end
